theory Spec2Isabelle
  imports Main "HOL-Library.Sublist"
begin

section \<open>The README generator: \<open>src/app/api/generate-readme/route.ts\<close>\<close>

text \<open>
  A shallow embedding of the route handler. JavaScript strings are modelled as
  \<open>string\<close>, one \<open>char\<close> standing for one UTF-16 code unit, so \<open>length\<close> is
  JavaScript's \<open>.length\<close>. The operating system, the git client and the generative API
  are parameters of the model (the record \<open>env\<close> below): every theorem holds for whatever
  they answer.
\<close>

subsection \<open>Strings\<close>

definition startsWith :: "string \<Rightarrow> string \<Rightarrow> bool" where
  "startsWith s p = prefix p s"

definition endsWith :: "string \<Rightarrow> string \<Rightarrow> bool" where
  "endsWith s p = suffix p s"

definition includesStr :: "string \<Rightarrow> string \<Rightarrow> bool" where
  "includesStr s p = sublist p s"

text \<open>
  \<open>String.prototype.toLowerCase\<close>, on strings of 8-bit code units: the ASCII letters
  are lowered and every other code unit is kept. JavaScript also lowers letters outside
  ASCII (the Kelvin sign U+212A becomes \<open>k\<close>); file names with such letters are outside
  this model. The key names are ASCII.
\<close>

definition lowerChar :: "char \<Rightarrow> char" where
  "lowerChar c =
     (let k = (of_char c :: nat) in if 65 \<le> k \<and> k \<le> 90 then char_of (k + 32) else c)"

definition toLowerCase :: "string \<Rightarrow> string" where
  "toLowerCase s = map lowerChar s"

text \<open>
  \<open>s.slice(0, e)\<close>: a negative end counts from the end of the string, and the result is
  empty when the end falls before the start.
\<close>

definition slice0 :: "string \<Rightarrow> int \<Rightarrow> string" where
  "slice0 s e =
     (if e < 0 then take (nat (int (length s) + e)) s else take (nat e) s)"

text \<open>Decimal rendering of a non-negative integer inside a template literal.\<close>

definition digitChar :: "nat \<Rightarrow> char" where
  "digitChar d = char_of (48 + d)"

fun showNat :: "nat \<Rightarrow> string" where
  "showNat n = (if n < 10 then [digitChar n] else showNat (n div 10) @ [digitChar (n mod 10)])"

declare showNat.simps [simp del]

text \<open>\<open>Array.prototype.find\<close>: the first element satisfying the predicate, or undefined.\<close>

fun findFirst :: "('a \<Rightarrow> bool) \<Rightarrow> 'a list \<Rightarrow> 'a option" where
  "findFirst P [] = None"
| "findFirst P (x # xs) = (if P x then Some x else findFirst P xs)"

subsection \<open>Constants\<close>

definition MAX_FILE_READ_SIZE_BYTES :: nat where
  "MAX_FILE_READ_SIZE_BYTES = 50 * 1024"

definition MAX_TOTAL_CONTEXT_LENGTH :: nat where
  "MAX_TOTAL_CONTEXT_LENGTH = 15000"

definition MAX_FILES_TO_LIST :: nat where
  "MAX_FILES_TO_LIST = 100"

definition MAX_FILE_CONTENT_TO_INCLUDE :: nat where
  "MAX_FILE_CONTENT_TO_INCLUDE = 10"

subsection \<open>Errors and the directory tree\<close>

text \<open>
  A thrown JavaScript error object: its \<open>code\<close> and \<open>message\<close> properties, either of
  which may be undefined.
\<close>

record js_error =
  code :: "string option"
  message :: "string option"

text \<open>
  What \<open>fs.readdir(dir, {withFileTypes: true})\<close> answers, recursively: the entries of
  the directory, or a thrown error. An entry is a directory (\<open>dirent.isDirectory()\<close>),
  with what \<open>readdir\<close> answers for it in turn, or anything else.
\<close>

datatype dirent =
    File string
  | Dir string readdir
and readdir =
    Entries "dirent list"
  | ReaddirError js_error

text \<open>
  \<open>path.relative(rootDir, path.resolve(dir, name))\<close> for a directory \<open>dir\<close> below
  \<open>rootDir\<close>, with \<open>dir\<close> given by its own path relative to \<open>rootDir\<close> (empty for the
  root itself).
\<close>

definition joinRel :: "string \<Rightarrow> string \<Rightarrow> string" where
  "joinRel dir n = (if dir = [] then n else dir @ ''/'' @ n)"

subsection \<open>\<open>listFiles\<close>\<close>

text \<open>
  \<open>listFiles(dir, fileList, rootDir, maxFiles)\<close>. The array \<open>fileList\<close> is shared by all
  recursive calls and mutated in place; here it is passed in and returned.
  \<open>listFiles\<close> is the function on a directory (given what \<open>readdir\<close> answers for it),
  \<open>listFilesLoop\<close> is its \<open>for (const dirent of dirents)\<close> loop.
\<close>

fun listFiles :: "string \<Rightarrow> readdir \<Rightarrow> string list \<Rightarrow> nat \<Rightarrow> js_error + string list"
  and listFilesLoop :: "string \<Rightarrow> dirent list \<Rightarrow> string list \<Rightarrow> nat \<Rightarrow> js_error + string list"
where
  "listFiles dir (ReaddirError e) fileList maxFiles =
     (if length fileList \<ge> maxFiles then Inr fileList else Inl e)"
| "listFiles dir (Entries dirents) fileList maxFiles =
     (if length fileList \<ge> maxFiles then Inr fileList
      else listFilesLoop dir dirents fileList maxFiles)"
| "listFilesLoop dir [] fileList maxFiles = Inr fileList"
| "listFilesLoop dir (File n # rest) fileList maxFiles =
     (if n = ''.git'' \<or> n = ''node_modules'' then listFilesLoop dir rest fileList maxFiles
      else let fileList' = fileList @ [joinRel dir n]
           in if length fileList' \<ge> maxFiles then Inr fileList'
              else listFilesLoop dir rest fileList' maxFiles)"
| "listFilesLoop dir (Dir n sub # rest) fileList maxFiles =
     (if n = ''.git'' \<or> n = ''node_modules'' then listFilesLoop dir rest fileList maxFiles
      else case listFiles (joinRel dir n) sub fileList maxFiles of
             Inl e \<Rightarrow> Inl e
           | Inr fileList' \<Rightarrow>
               if length fileList' \<ge> maxFiles then Inr fileList'
               else listFilesLoop dir rest fileList' maxFiles)"

subsection \<open>The environment of one request\<close>

text \<open>\<open>fs.Stats\<close>, as far as the handler looks at it.\<close>

record stats =
  isFile :: bool
  st_size :: nat

text \<open>
  A parsed JSON value. Only the type of a number and whether it is zero can matter to
  the handler, so numbers are integers here. An object is its list of members in the
  order of the text; a later duplicate of a key wins, as in \<open>JSON.parse\<close>.
\<close>

datatype json =
    JNull
  | JBool bool
  | JNum int
  | JStr string
  | JArr "json list"
  | JObj "(string \<times> json) list"

text \<open>
  The response of the generative API, as far as the handler looks at it:
  \<open>candidates\<close> (possibly undefined), the \<open>finishReason\<close> of a candidate (possibly
  undefined), \<open>promptFeedback\<close> (possibly undefined, and given by the text that
  \<open>JSON.stringify\<close> renders it as), whether the property \<open>text\<close> is truthy, and what
  calling \<open>text()\<close> does: return a string or throw.
\<close>

record candidate =
  finishReason :: "string option"

record gen_response =
  candidates :: "candidate list option"
  promptFeedback :: "string option"
  hasText :: bool
  textCall :: "js_error + string"

text \<open>
  Everything outside the handler: the process environment, the request, the operating
  system, git and the generative API. Files are addressed by their path relative to the
  temporary directory. \<open>tmpdir\<close> is \<open>os.tmpdir()\<close> in normal form (no trailing or
  doubled separator), so that \<open>path.join\<close> only puts one separator after it; \<open>mkdtemp\<close>
  is the six characters that \<open>fs.mkdtemp\<close> adds to the prefix, or the error it throws. \<open>engineTypeError\<close> is the \<open>TypeError\<close> that the JavaScript engine
  throws when \<open>null\<close> is destructured.
\<close>

record env =
  API_KEY :: "string option"
  requestJson :: "js_error + json"
  engineTypeError :: js_error
  tmpdir :: string
  mkdtemp :: "js_error + string"
  clone :: "string \<Rightarrow> string \<Rightarrow> js_error option"
  repo :: readdir
  stat :: "string \<Rightarrow> js_error + stats"
  readFile :: "string \<Rightarrow> js_error + string"
  generateContent :: "string \<Rightarrow> js_error + gen_response option"
  rm :: "string \<Rightarrow> js_error option"

subsection \<open>Extraction of the context\<close>

text \<open>The three variables of the extraction phase.\<close>

record ext_state =
  extractedContext :: string
  totalContextLength :: nat
  filesReadCount :: nat

definition appendUncounted :: "string \<Rightarrow> ext_state \<Rightarrow> ext_state" where
  "appendUncounted s st = st\<lparr>extractedContext := extractedContext st @ s\<rparr>"

text \<open>The \<open>forEach\<close> over the listed files.\<close>

fun listLoop :: "string list \<Rightarrow> ext_state \<Rightarrow> ext_state" where
  "listLoop [] st = st"
| "listLoop (f # fs) st =
     (let line = ''- '' @ f @ ''\<newline>''
      in if totalContextLength st + length line < MAX_TOTAL_CONTEXT_LENGTH
         then listLoop fs (st\<lparr>extractedContext := extractedContext st @ line,
                               totalContextLength := totalContextLength st + length line\<rparr>)
         else listLoop fs st)"

definition keyFiles :: "string list" where
  "keyFiles =
     [''package.json'', ''composer.json'', ''requirements.txt'', ''Pipfile'', ''Gemfile'',
      ''pom.xml'', ''build.gradle'', ''Makefile'', ''Dockerfile'', ''docker-compose.yml'',
      ''README'', ''README.md'', ''README.rst'']"

text \<open>
  The body of the loop over the key files, for one key name, after the test of
  \<open>filesReadCount\<close>: what it does to the context. \<open>Skip\<close> is every way of going on to the
  next name without a change (no match, a \<open>stat\<close> or read error caught by the inner
  \<open>try\<close>, not a regular file, too large); \<open>Append p section\<close> commits the section of the
  file \<open>p\<close>; \<open>Exhausted\<close> is the \<open>break\<close> taken when the section does not fit.
\<close>

datatype key_outcome = Skip | Append string string | Exhausted

definition sectionOf :: "string \<Rightarrow> string \<Rightarrow> nat \<Rightarrow> string" where
  "sectionOf p content len =
     ''\<newline>--- File: '' @ p @ '' ---\<newline>''
     @ slice0 content (int MAX_TOTAL_CONTEXT_LENGTH - int len - 100)
     @ ''\<newline>---\<newline>''"

definition keyFile :: "'a env_scheme \<Rightarrow> string list \<Rightarrow> string \<Rightarrow> ext_state \<Rightarrow> key_outcome" where
  "keyFile e allFiles potentialFileRelPath st =
     (case findFirst (\<lambda>f. endsWith (toLowerCase f) (toLowerCase potentialFileRelPath)) allFiles of
        None \<Rightarrow> Skip
      | Some actualFileRelPath \<Rightarrow>
          if actualFileRelPath = [] then Skip
          else (case stat e actualFileRelPath of
                  Inl readError \<Rightarrow> Skip
                | Inr stats \<Rightarrow>
                    if isFile stats \<and> st_size stats \<le> MAX_FILE_READ_SIZE_BYTES
                    then (case readFile e actualFileRelPath of
                            Inl readError \<Rightarrow> Skip
                          | Inr content \<Rightarrow>
                              let section = sectionOf actualFileRelPath content (totalContextLength st)
                              in if totalContextLength st + length section < MAX_TOTAL_CONTEXT_LENGTH
                                 then Append actualFileRelPath section
                                 else Exhausted)
                    else Skip))"

definition commit :: "string \<Rightarrow> ext_state \<Rightarrow> ext_state" where
  "commit section st =
     st\<lparr>extractedContext := extractedContext st @ section,
        totalContextLength := totalContextLength st + length section,
        filesReadCount := filesReadCount st + 1\<rparr>"

fun keyLoop :: "'a env_scheme \<Rightarrow> string list \<Rightarrow> string list \<Rightarrow> ext_state \<Rightarrow> ext_state" where
  "keyLoop e allFiles [] st = st"
| "keyLoop e allFiles (k # ks) st =
     (if filesReadCount st \<ge> MAX_FILE_CONTENT_TO_INCLUDE then st
      else case keyFile e allFiles k st of
             Skip \<Rightarrow> keyLoop e allFiles ks st
           | Append p section \<Rightarrow> keyLoop e allFiles ks (commit section st)
           | Exhausted \<Rightarrow> st)"

text \<open>
  Step 3 of the handler, from the initial header to the placeholder note. It fails only
  when \<open>listFiles\<close> throws.
\<close>

definition extractFrom :: "'a env_scheme \<Rightarrow> string list \<Rightarrow> ext_state" where
  "extractFrom e allFiles =
     (let header = ''Repository Structure and Key Files:\<newline>\<newline>'';
          st0 = \<lparr>extractedContext = header, totalContextLength = length header,
                 filesReadCount = 0\<rparr>;
          st1 = appendUncounted
                  (''File List ('' @ showNat (min (length allFiles) MAX_FILES_TO_LIST)
                     @ '' files shown):\<newline>'') st0;
          st2 = listLoop (take MAX_FILES_TO_LIST allFiles) st1;
          st3 = (if length allFiles > MAX_FILES_TO_LIST
                 then appendUncounted
                        (''- ... (and '' @ showNat (length allFiles - MAX_FILES_TO_LIST)
                           @ '' more files)\<newline>'') st2
                 else st2);
          st4 = appendUncounted ''\<newline>'' st3;
          st5 = appendUncounted ''Key File Contents:\<newline>'' st4;
          st6 = keyLoop e allFiles keyFiles st5
      in if filesReadCount st6 = 0
         then appendUncounted ''(No key files identified or read)\<newline>'' st6
         else st6)"

definition extractContext :: "'a env_scheme \<Rightarrow> js_error + ext_state" where
  "extractContext e =
     (case listFiles [] (repo e) [] MAX_FILES_TO_LIST of
        Inl err \<Rightarrow> Inl err
      | Inr allFiles \<Rightarrow> Inr (extractFrom e allFiles))"

subsection \<open>The prompt\<close>

definition promptHead :: string where
  "promptHead =
     ''\<newline>''
     @ ''            Based *only* on the following extracted context from the public code repository at ''"

definition promptMiddle :: string where
  "promptMiddle =
     '', generate a comprehensive README.md file in Markdown format.\<newline>''
     @ ''\<newline>''
     @ ''            **Extracted Context:**\<newline>''
     @ ''            ```\<newline>''
     @ ''            ''"

definition promptTail :: string where
  "promptTail =
     ''\<newline>''
     @ ''            ```\<newline>''
     @ ''\<newline>''
     @ ''            **Instructions for README Generation:**\<newline>''
     @ ''            1.  **Infer Purpose:** Based on file names (like package.json, requirements.txt) and any file content provided, infer the project's likely purpose and primary language/framework.\<newline>''
     @ ''            2.  **Structure:** Create a standard README with sections like:\<newline>''
     @ ''                * Project Title (Infer a good one)\<newline>''
     @ ''                * Description (Brief overview based on inference)\<newline>''
     @ ''                * Tech Stack (List inferred technologies)\<newline>''
     @ ''                * Getting Started (Provide generic steps based on package managers identified, e.g., 'npm install', 'pip install -r requirements.txt'. Mention cloning the repo.)\<newline>''
     @ ''                * Usage (If possible, infer basic usage, otherwise provide a placeholder)\<newline>''
     @ ''                * File Structure Overview (Briefly mention key directories if apparent from the file list)\<newline>''
     @ ''                * Contributing (Generic placeholder)\<newline>''
     @ ''                * License (Generic placeholder like MIT unless a LICENSE file was read)\<newline>''
     @ ''            3.  **Content Source:** Generate content *strictly* from the provided context. Do not add features, instructions, or technologies not mentioned or strongly implied by the context. If context is insufficient for a section, state that or use a placeholder.\<newline>''
     @ ''            4.  **Formatting:** Use standard Markdown. Format code commands correctly.\<newline>''
     @ ''            5.  **Conciseness:** Be informative but avoid excessive jargon.\<newline>''
     @ ''        ''"

definition buildPrompt :: "string \<Rightarrow> string \<Rightarrow> string" where
  "buildPrompt repoUrl context = promptHead @ repoUrl @ promptMiddle @ context @ promptTail"

subsection \<open>The POST handler\<close>

datatype body = ErrorBody string | ReadmeBody string

record response =
  status :: nat
  payload :: body

text \<open>
  What the handler does to the world, in order: it calls \<open>fs.mkdtemp\<close> (\<open>Mkdtemp\<close>),
  gets the temporary directory (\<open>Created\<close>), runs \<open>git.clone\<close> of a URL into a
  directory, calls \<open>generateContent\<close>, calls \<open>fs.rm\<close> on a directory with
  \<open>{recursive: true, force: true}\<close> (\<open>Rm\<close>), and logs that this removal failed.
\<close>

datatype effect =
    Mkdtemp
  | Created string
  | Clone string string
  | Generate
  | Rm string
  | LogRmFailed string

text \<open>The module-level client: null when the key is undefined or empty.\<close>

definition genAI :: "'a env_scheme \<Rightarrow> string option" where
  "genAI e = (case API_KEY e of None \<Rightarrow> None | Some k \<Rightarrow> if k = [] then None else Some k)"

text \<open>
  \<open>const { repoUrl } = body\<close>: destructuring \<open>null\<close> throws, a property that is not
  there is undefined (\<open>None\<close>).
\<close>

definition getRepoUrl :: "'a env_scheme \<Rightarrow> json \<Rightarrow> js_error + json option" where
  "getRepoUrl e b =
     (case b of
        JNull \<Rightarrow> Inl (engineTypeError e)
      | JObj members \<Rightarrow> Inr (map_of (rev members) ''repoUrl'')
      | _ \<Rightarrow> Inr None)"

fun truthy :: "json option \<Rightarrow> bool" where
  "truthy None = False"
| "truthy (Some JNull) = False"
| "truthy (Some (JBool b)) = b"
| "truthy (Some (JNum n)) = (n \<noteq> 0)"
| "truthy (Some (JStr s)) = (s \<noteq> [])"
| "truthy (Some (JArr xs)) = True"
| "truthy (Some (JObj ms)) = True"

text \<open>
  The test of line 63, as the string that passes it: \<open>None\<close> when the handler answers
  400.
\<close>

definition acceptedRepoUrl :: "json option \<Rightarrow> string option" where
  "acceptedRepoUrl v =
     (if \<not> truthy v then None
      else case v of
             Some (JStr repoUrl) \<Rightarrow>
               if \<not> startsWith repoUrl ''http://'' \<and> \<not> startsWith repoUrl ''https://''
               then None else Some repoUrl
           | _ \<Rightarrow> None)"

text \<open>Step 6: the response of the generative API becomes the answer, or \<open>text()\<close> throws.\<close>

definition usable :: "gen_response option \<Rightarrow> bool" where
  "usable r =
     (case r of
        None \<Rightarrow> False
      | Some resp \<Rightarrow>
          (case candidates resp of None \<Rightarrow> False | Some cs \<Rightarrow> length cs > 0 \<and> hasText resp))"

definition generationFailure :: "gen_response option \<Rightarrow> response" where
  "generationFailure r =
     (let feedback = (case r of None \<Rightarrow> None | Some resp \<Rightarrow> promptFeedback resp);
          reason = (case r of
                      None \<Rightarrow> None
                    | Some resp \<Rightarrow>
                        (case candidates resp of
                           None \<Rightarrow> None
                         | Some [] \<Rightarrow> None
                         | Some (c # cs) \<Rightarrow> finishReason c))
      in \<lparr>status = 500,
          payload = ErrorBody
            (''Failed to generate content. Reason: ''
             @ (case reason of None \<Rightarrow> ''Unknown'' | Some fr \<Rightarrow> if fr = [] then ''Unknown'' else fr)
             @ ''. Feedback: ''
             @ (case feedback of None \<Rightarrow> ''undefined'' | Some fb \<Rightarrow> fb))\<rparr>)"

definition processResponse :: "gen_response option \<Rightarrow> js_error + response" where
  "processResponse r =
     (case r of
        None \<Rightarrow> Inr (generationFailure r)
      | Some resp \<Rightarrow>
          if usable r
          then (case textCall resp of
                  Inl err \<Rightarrow> Inl err
                | Inr readmeText \<Rightarrow> Inr \<lparr>status = 200, payload = ReadmeBody readmeText\<rparr>)
          else Inr (generationFailure r))"

text \<open>Steps 2 to 6, inside the \<open>try\<close>, once the temporary directory exists.\<close>

definition pipeline :: "'a env_scheme \<Rightarrow> string \<Rightarrow> string \<Rightarrow> (js_error + response) \<times> effect list" where
  "pipeline e repoUrl tempDir =
     (case clone e repoUrl tempDir of
        Some err \<Rightarrow> (Inl err, [Clone repoUrl tempDir])
      | None \<Rightarrow>
          (case extractContext e of
             Inl err \<Rightarrow> (Inl err, [Clone repoUrl tempDir])
           | Inr st \<Rightarrow>
               (case generateContent e (buildPrompt repoUrl (extractedContext st)) of
                  Inl err \<Rightarrow> (Inl err, [Clone repoUrl tempDir, Generate])
                | Inr r \<Rightarrow> (processResponse r, [Clone repoUrl tempDir, Generate]))))"

text \<open>
  The \<open>try\<close> block: its result (a returned response or a thrown error), the value of
  \<open>tempDir\<close> when it is left, and the effects.
\<close>

definition tryBlock :: "'a env_scheme \<Rightarrow> (js_error + response) \<times> string option \<times> effect list" where
  "tryBlock e =
     (case requestJson e of
        Inl err \<Rightarrow> (Inl err, None, [])
      | Inr b \<Rightarrow>
          (case getRepoUrl e b of
             Inl err \<Rightarrow> (Inl err, None, [])
           | Inr v \<Rightarrow>
               (case acceptedRepoUrl v of
                  None \<Rightarrow>
                    (Inr \<lparr>status = 400, payload = ErrorBody ''Invalid repository URL provided.''\<rparr>,
                     None, [])
                | Some repoUrl \<Rightarrow>
                    (case mkdtemp e of
                       Inl err \<Rightarrow> (Inl err, None, [Mkdtemp])
                     | Inr rnd \<Rightarrow>
                         (let tempDir = tmpdir e @ ''/gemini-readme-'' @ rnd
                          in case pipeline e repoUrl tempDir of
                               (r, effs) \<Rightarrow> (r, Some tempDir, Mkdtemp # Created tempDir # effs))))))"

text \<open>The \<open>catch\<close> block.\<close>

definition messageIncludes :: "js_error \<Rightarrow> string \<Rightarrow> bool" where
  "messageIncludes err s = (case message err of None \<Rightarrow> False | Some m \<Rightarrow> includesStr m s)"

definition catchBlock :: "js_error \<Rightarrow> response" where
  "catchBlock err =
     (let errorMessage =
        (if code err = Some ''ENOENT'' \<or> messageIncludes err ''Authentication failed''
         then ''Failed to clone repository. Check URL and ensure it's public.''
         else if messageIncludes err ''mkdtemp''
         then ''Failed to create temporary directory on server.''
         else case message err of
                None \<Rightarrow> ''An internal server error occurred.''
              | Some m \<Rightarrow> if m = [] then ''An internal server error occurred.'' else m)
      in \<lparr>status = 500, payload = ErrorBody errorMessage\<rparr>)"

text \<open>The \<open>finally\<close> block: the removal, whose failure is caught and logged.\<close>

definition finallyBlock :: "'a env_scheme \<Rightarrow> string option \<Rightarrow> effect list" where
  "finallyBlock e tempDir =
     (case tempDir of
        None \<Rightarrow> []
      | Some d \<Rightarrow>
          if d = [] then []
          else (case rm e d of None \<Rightarrow> [Rm d] | Some err \<Rightarrow> [Rm d, LogRmFailed d]))"

definition POST :: "'a env_scheme \<Rightarrow> response \<times> effect list" where
  "POST e =
     (if genAI e = None
      then (\<lparr>status = 500, payload = ErrorBody ''API Key not configured.''\<rparr>, [])
      else case tryBlock e of
             (r, tempDir, effs) \<Rightarrow>
               ((case r of Inr resp \<Rightarrow> resp | Inl err \<Rightarrow> catchBlock err),
                effs @ finallyBlock e tempDir))"

subsection \<open>What the loop over the key files did\<close>




text \<open>
  A matched file that the handler does not read: \<open>stat\<close> throws, or the file is not a
  regular file, or it is larger than the cap. And a file whose read throws.
\<close>

definition rejectedByStat :: "'a env_scheme \<Rightarrow> string \<Rightarrow> bool" where
  "rejectedByStat e p =
     (case stat e p of
        Inl err \<Rightarrow> True
      | Inr s \<Rightarrow> \<not> isFile s \<or> MAX_FILE_READ_SIZE_BYTES < st_size s)"

definition readFails :: "'a env_scheme \<Rightarrow> string \<Rightarrow> bool" where
  "readFails e p = (case readFile e p of Inl err \<Rightarrow> True | Inr content \<Rightarrow> False)"




subsection \<open>Concrete requests\<close>

text \<open>
  A request that succeeds: the key is set, the body names a repository, the clone leaves
  three entries, and the generative API answers with one candidate.
\<close>

definition baseEnv :: env where
  "baseEnv =
     \<lparr>API_KEY = Some ''secret'',
      requestJson = Inr (JObj [(''repoUrl'', JStr ''https://example.com/o/r.git'')]),
      engineTypeError =
        \<lparr>code = None, message = Some ''Cannot destructure property repoUrl of null''\<rparr>,
      tmpdir = ''/tmp'',
      mkdtemp = Inr ''Ab12Cd'',
      clone = (\<lambda>url dir. None),
      repo = Entries [Dir ''.git'' (Entries [File ''HEAD'']), File ''package.json'',
                      Dir ''src'' (Entries [File ''index.js''])],
      stat = (\<lambda>p. Inr \<lparr>isFile = True, st_size = 2\<rparr>),
      readFile = (\<lambda>p. Inr ''{}''),
      generateContent =
        (\<lambda>prompt. Inr (Some \<lparr>candidates = Some [\<lparr>finishReason = Some ''STOP''\<rparr>],
                               promptFeedback = None, hasText = True,
                               textCall = Inr ''# Hello''\<rparr>)),
      rm = (\<lambda>dir. None)\<rparr>"

text \<open>The same request without the key, with the body \<open>null\<close>, and with other URLs.\<close>

definition envNoKey :: env where
  "envNoKey = baseEnv\<lparr>API_KEY := None\<rparr>"

definition envNoKeyEmptyBody :: env where
  "envNoKeyEmptyBody = baseEnv\<lparr>API_KEY := None, requestJson := Inr (JObj [])\<rparr>"

definition envNullBody :: env where
  "envNullBody = baseEnv\<lparr>requestJson := Inr JNull\<rparr>"

definition envFtp :: env where
  "envFtp = baseEnv\<lparr>requestJson := Inr (JObj [(''repoUrl'', JStr ''ftp://example.com/r'')])\<rparr>"

definition envNoTempDir :: env where
  "envNoTempDir =
     baseEnv\<lparr>mkdtemp := Inl \<lparr>code = Some ''EACCES'', message = Some ''EACCES: permission denied''\<rparr>\<rparr>"

text \<open>A body whose \<open>repoUrl\<close> is the bare scheme; git cannot clone it.\<close>

definition envBareScheme :: env where
  "envBareScheme =
     baseEnv\<lparr>requestJson := Inr (JObj [(''repoUrl'', JStr ''https://'')]),
             clone := (\<lambda>url dir. Some \<lparr>code = None, message = Some ''fatal: unable to access''\<rparr>)\<rparr>"

text \<open>
  The generative API answers with one candidate that has no text and was cut off
  (\<open>text()\<close> returns the empty string), and with one candidate that was filtered
  (\<open>text()\<close> throws).
\<close>

definition envEmptyGeneration :: env where
  "envEmptyGeneration =
     baseEnv\<lparr>generateContent :=
       (\<lambda>prompt. Inr (Some \<lparr>candidates = Some [\<lparr>finishReason = Some ''MAX_TOKENS''\<rparr>],
                              promptFeedback = Some ''{}'', hasText = True,
                              textCall = Inr ''''\<rparr>))\<rparr>"

definition envFilteredGeneration :: env where
  "envFilteredGeneration =
     baseEnv\<lparr>generateContent :=
       (\<lambda>prompt. Inr (Some \<lparr>candidates = Some [\<lparr>finishReason = Some ''SAFETY''\<rparr>],
                              promptFeedback = Some ''{}'', hasText = True,
                              textCall = Inl \<lparr>code = None, message = Some ''blocked''\<rparr>\<rparr>))\<rparr>"

text \<open>A repository of 101 files, all in the root directory.\<close>

definition manyNames :: "string list" where
  "manyNames =
     [''aa'', ''ab'', ''ac'', ''ad'', ''ae'', ''af'', ''ag'', ''ah'', ''ai'', ''aj'',
      ''ba'', ''bb'', ''bc'', ''bd'', ''be'', ''bf'', ''bg'', ''bh'', ''bi'', ''bj'',
      ''ca'', ''cb'', ''cc'', ''cd'', ''ce'', ''cf'', ''cg'', ''ch'', ''ci'', ''cj'',
      ''da'', ''db'', ''dc'', ''dd'', ''de'', ''df'', ''dg'', ''dh'', ''di'', ''dj'',
      ''ea'', ''eb'', ''ec'', ''ed'', ''ee'', ''ef'', ''eg'', ''eh'', ''ei'', ''ej'',
      ''fa'', ''fb'', ''fc'', ''fd'', ''fe'', ''ff'', ''fg'', ''fh'', ''fi'', ''fj'',
      ''ga'', ''gb'', ''gc'', ''gd'', ''ge'', ''gf'', ''gg'', ''gh'', ''gi'', ''gj'',
      ''ha'', ''hb'', ''hc'', ''hd'', ''he'', ''hf'', ''hg'', ''hh'', ''hi'', ''hj'',
      ''ia'', ''ib'', ''ic'', ''id'', ''ie'', ''if'', ''ig'', ''ih'', ''ii'', ''ij'',
      ''ja'', ''jb'', ''jc'', ''jd'', ''je'', ''jf'', ''jg'', ''jh'', ''ji'', ''jj'',
      ''ka'']"

definition envManyFiles :: env where
  "envManyFiles = baseEnv\<lparr>repo := Entries (map File manyNames)\<rparr>"

text \<open>
  A repository of one file, a \<open>package.json\<close> of 20000 characters two directories
  down.
\<close>

definition longPath :: string where
  "longPath = ''services/billing-gateway-adapter/package.json''"

definition envLongPath :: env where
  "envLongPath =
     baseEnv\<lparr>repo := Entries [Dir ''services''
                (Entries [Dir ''billing-gateway-adapter'' (Entries [File ''package.json''])])],
             stat := (\<lambda>p. Inr \<lparr>isFile = True, st_size = 20000\<rparr>),
             readFile := (\<lambda>p. Inr (replicate 20000 (CHR ''x'')))\<rparr>"




definition tightState :: ext_state where
  "tightState = \<lparr>extractedContext = ''Key File Contents:\<newline>'',
                 totalContextLength = 14932, filesReadCount = 0\<rparr>"

text \<open>The request for the bare scheme, when the removal of the directory fails too.\<close>

definition envRmFails :: env where
  "envRmFails =
     envBareScheme\<lparr>rm := (\<lambda>dir. Some \<lparr>code = Some ''EBUSY'',
                                          message = Some ''EBUSY: resource busy or locked''\<rparr>)\<rparr>"

text \<open>A repository whose \<open>package.json\<close> is larger than the cap of 50 KB.\<close>

definition bigFiles :: "string list" where
  "bigFiles = [''package.json'', ''README.md'']"

definition envBigManifest :: env where
  "envBigManifest =
     baseEnv\<lparr>repo := Entries (map File bigFiles),
             stat := (\<lambda>p. if p = ''package.json''
                          then Inr \<lparr>isFile = True, st_size = 60000\<rparr>
                          else Inr \<lparr>isFile = True, st_size = 7\<rparr>),
             readFile := (\<lambda>p. Inr ''# Title'')\<rparr>"

text \<open>The same repository, in which no file can be read.\<close>

definition envUnreadable :: env where
  "envUnreadable =
     envBigManifest\<lparr>readFile :=
       (\<lambda>p. Inl \<lparr>code = Some ''EACCES'', message = Some ''EACCES: permission denied''\<rparr>)\<rparr>"

subsection \<open>Notions of the specification\<close>

text \<open>
  The names that \<open>listFiles\<close> skips: version-control metadata and the dependency
  cache.
\<close>

definition excludedName :: "string \<Rightarrow> bool" where
  "excludedName n = (n = ''.git'' \<or> n = ''node_modules'')"

text \<open>
  The non-excluded files of a tree, following the specification's File Listing: every
  entry that is not a directory, is not skipped and does not lie below a skipped entry,
  by its relative path, in depth-first order. Each such entry contributes exactly one
  path.
\<close>

fun filesOf :: "string \<Rightarrow> readdir \<Rightarrow> string list"
  and filesOfEntries :: "string \<Rightarrow> dirent list \<Rightarrow> string list"
where
  "filesOf dir (ReaddirError e) = []"
| "filesOf dir (Entries dirents) = filesOfEntries dir dirents"
| "filesOfEntries dir [] = []"
| "filesOfEntries dir (File n # rest) =
     (if excludedName n then [] else [joinRel dir n]) @ filesOfEntries dir rest"
| "filesOfEntries dir (Dir n sub # rest) =
     (if excludedName n then [] else filesOf (joinRel dir n) sub) @ filesOfEntries dir rest"

text \<open>Every directory that is not skipped can be read.\<close>

fun readable :: "readdir \<Rightarrow> bool"
  and readableEntries :: "dirent list \<Rightarrow> bool"
where
  "readable (ReaddirError e) = False"
| "readable (Entries dirents) = readableEntries dirents"
| "readableEntries [] = True"
| "readableEntries (File n # rest) = readableEntries rest"
| "readableEntries (Dir n sub # rest) =
     ((excludedName n \<or> readable sub) \<and> readableEntries rest)"

text \<open>No name of the tree contains the path separator, as in every file system.\<close>

fun slashFree :: "readdir \<Rightarrow> bool"
  and slashFreeEntries :: "dirent list \<Rightarrow> bool"
where
  "slashFree (ReaddirError e) = True"
| "slashFree (Entries dirents) = slashFreeEntries dirents"
| "slashFreeEntries [] = True"
| "slashFreeEntries (File n # rest) = (CHR ''/'' \<notin> set n \<and> slashFreeEntries rest)"
| "slashFreeEntries (Dir n sub # rest) =
     (CHR ''/'' \<notin> set n \<and> slashFree sub \<and> slashFreeEntries rest)"

text \<open>
  The names of the entries of each directory are not empty and differ from one another,
  as in every file system.
\<close>

fun direntName :: "dirent \<Rightarrow> string" where
  "direntName (File n) = n"
| "direntName (Dir n sub) = n"

fun distinctNames :: "readdir \<Rightarrow> bool"
  and distinctNamesEntries :: "dirent list \<Rightarrow> bool"
where
  "distinctNames (ReaddirError e) = True"
| "distinctNames (Entries dirents) = distinctNamesEntries dirents"
| "distinctNamesEntries [] = True"
| "distinctNamesEntries (File n # rest) =
     (n \<noteq> [] \<and> n \<notin> direntName ` set rest \<and> distinctNamesEntries rest)"
| "distinctNamesEntries (Dir n sub # rest) =
     (n \<noteq> [] \<and> n \<notin> direntName ` set rest \<and> distinctNames sub \<and> distinctNamesEntries rest)"

text \<open>The path \<open>p\<close> is the entry \<open>n\<close> of the directory \<open>dir\<close>, or lies below it.\<close>

definition below :: "string \<Rightarrow> string \<Rightarrow> string \<Rightarrow> bool" where
  "below dir n p = (p = joinRel dir n \<or> (\<exists>q. p = joinRel dir n @ CHR ''/'' # q))"

text \<open>
  The components of a relative path: a path lies inside a directory named \<open>n\<close> when
  \<open>n\<close> is one of its components.
\<close>

fun splitPath :: "string \<Rightarrow> string list" where
  "splitPath [] = [[]]"
| "splitPath (c # cs) =
     (if c = CHR ''/'' then [] # splitPath cs
      else (case splitPath cs of [] \<Rightarrow> [[c]] | w # ws \<Rightarrow> (c # w) # ws))"

definition cleanPath :: "string \<Rightarrow> bool" where
  "cleanPath p = (\<forall>c \<in> set (splitPath p). \<not> excludedName c)"

text \<open>
  A necessary condition for a string to be a valid http(s) URL, following the
  specification's word ``valid'': after the scheme comes a host, which is not empty and
  does not start with a delimiter.
\<close>

definition hostShape :: "string \<Rightarrow> bool" where
  "hostShape h = (case h of [] \<Rightarrow> False | c # cs \<Rightarrow> c \<notin> set ''/?#:'')"

definition urlShape :: "string \<Rightarrow> bool" where
  "urlShape s =
     (if startsWith s ''https://'' then hostShape (drop 8 s)
      else if startsWith s ''http://'' then hostShape (drop 7 s)
      else False)"

section \<open>Properties\<close>

subsection \<open>Evaluating the handler\<close>

lemmas handler_defs = POST_def genAI_def tryBlock_def getRepoUrl_def acceptedRepoUrl_def
  pipeline_def processResponse_def usable_def generationFailure_def catchBlock_def
  messageIncludes_def includesStr_def startsWith_def finallyBlock_def sublist_code Let_def

lemma listFiles_baseEnv:
  "listFiles [] (repo baseEnv) [] MAX_FILES_TO_LIST = Inr [''package.json'', ''src/index.js'']"
  by (simp add: baseEnv_def MAX_FILES_TO_LIST_def joinRel_def)

lemma extractContext_baseEnv:
  "repo e = repo baseEnv \<Longrightarrow>
   extractContext e = Inr (extractFrom e [''package.json'', ''src/index.js''])"
  by (simp add: extractContext_def listFiles_baseEnv)

lemma POST_baseEnv:
  "POST baseEnv =
     (\<lparr>status = 200, payload = ReadmeBody ''# Hello''\<rparr>,
      [Mkdtemp, Created ''/tmp/gemini-readme-Ab12Cd'',
       Clone ''https://example.com/o/r.git'' ''/tmp/gemini-readme-Ab12Cd'',
       Generate, Rm ''/tmp/gemini-readme-Ab12Cd''])"
  by (simp add: handler_defs extractContext_baseEnv baseEnv_def)

lemma POST_envFtp:
  "POST envFtp = (\<lparr>status = 400, payload = ErrorBody ''Invalid repository URL provided.''\<rparr>, [])"
  by (simp add: handler_defs envFtp_def baseEnv_def)

lemma POST_envBareScheme:
  "POST envBareScheme =
     (\<lparr>status = 500, payload = ErrorBody ''fatal: unable to access''\<rparr>,
      [Mkdtemp, Created ''/tmp/gemini-readme-Ab12Cd'',
       Clone ''https://'' ''/tmp/gemini-readme-Ab12Cd'', Rm ''/tmp/gemini-readme-Ab12Cd''])"
  by (simp add: handler_defs envBareScheme_def baseEnv_def)

lemma POST_envNullBody:
  "POST envNullBody =
     (\<lparr>status = 500, payload = ErrorBody ''Cannot destructure property repoUrl of null''\<rparr>, [])"
  by (simp add: handler_defs envNullBody_def baseEnv_def)

lemma POST_envNoTempDir:
  "POST envNoTempDir =
     (\<lparr>status = 500, payload = ErrorBody ''EACCES: permission denied''\<rparr>, [Mkdtemp])"
  by (simp add: handler_defs envNoTempDir_def baseEnv_def)

lemma POST_envEmptyGeneration:
  "POST envEmptyGeneration =
     (\<lparr>status = 200, payload = ReadmeBody ''''\<rparr>,
      [Mkdtemp, Created ''/tmp/gemini-readme-Ab12Cd'',
       Clone ''https://example.com/o/r.git'' ''/tmp/gemini-readme-Ab12Cd'',
       Generate, Rm ''/tmp/gemini-readme-Ab12Cd''])"
  by (simp add: handler_defs extractContext_baseEnv envEmptyGeneration_def baseEnv_def)

lemma POST_envFilteredGeneration:
  "POST envFilteredGeneration =
     (\<lparr>status = 500, payload = ErrorBody ''blocked''\<rparr>,
      [Mkdtemp, Created ''/tmp/gemini-readme-Ab12Cd'',
       Clone ''https://example.com/o/r.git'' ''/tmp/gemini-readme-Ab12Cd'',
       Generate, Rm ''/tmp/gemini-readme-Ab12Cd''])"
  by (simp add: handler_defs extractContext_baseEnv envFilteredGeneration_def baseEnv_def)

lemma POST_envRmFails:
  "POST envRmFails =
     (\<lparr>status = 500, payload = ErrorBody ''fatal: unable to access''\<rparr>,
      [Mkdtemp, Created ''/tmp/gemini-readme-Ab12Cd'',
       Clone ''https://'' ''/tmp/gemini-readme-Ab12Cd'', Rm ''/tmp/gemini-readme-Ab12Cd'',
       LogRmFailed ''/tmp/gemini-readme-Ab12Cd''])"
  by (simp add: handler_defs envRmFails_def envBareScheme_def baseEnv_def)

subsection \<open>The handler does not depend on how the removal ends\<close>

lemma keyFile_rm [simp]: "keyFile (e\<lparr>rm := r\<rparr>) fl k st = keyFile e fl k st"
  by (simp add: keyFile_def split: option.splits sum.splits)

lemma keyLoop_rm [simp]: "keyLoop (e\<lparr>rm := r\<rparr>) fl ks st = keyLoop e fl ks st"
  by (induction ks arbitrary: st) (auto split: key_outcome.splits)

lemma extractFrom_rm [simp]: "extractFrom (e\<lparr>rm := r\<rparr>) fl = extractFrom e fl"
  by (simp add: extractFrom_def)

lemma extractContext_rm [simp]: "extractContext (e\<lparr>rm := r\<rparr>) = extractContext e"
  by (simp add: extractContext_def cong: sum.case_cong)

lemma pipeline_rm [simp]: "pipeline (e\<lparr>rm := r\<rparr>) u d = pipeline e u d"
  by (simp add: pipeline_def cong: sum.case_cong option.case_cong)

lemma getRepoUrl_rm [simp]: "getRepoUrl (e\<lparr>rm := r\<rparr>) b = getRepoUrl e b"
  by (simp add: getRepoUrl_def split: json.splits)

lemma tryBlock_rm [simp]: "tryBlock (e\<lparr>rm := r\<rparr>) = tryBlock e"
  by (simp add: tryBlock_def cong: sum.case_cong option.case_cong)

subsection \<open>The shape of the effects\<close>

lemma pipeline_effects:
  "snd (pipeline e u d) = [Clone u d] \<or> snd (pipeline e u d) = [Clone u d, Generate]"
  by (simp add: pipeline_def split: option.splits sum.splits)

lemma tryBlock_cases:
  "(\<exists>r. tryBlock e = (r, None, []))
   \<or> (\<exists>r. tryBlock e = (r, None, [Mkdtemp]))
   \<or> (\<exists>r rnd u. mkdtemp e = Inr rnd
         \<and> tryBlock e =
             (r, Some (tmpdir e @ ''/gemini-readme-'' @ rnd),
              Mkdtemp # Created (tmpdir e @ ''/gemini-readme-'' @ rnd)
                # snd (pipeline e u (tmpdir e @ ''/gemini-readme-'' @ rnd))))"
  by (simp add: tryBlock_def Let_def case_prod_beta split: sum.splits option.splits) blast

lemma acceptedRepoUrl_iff:
  "acceptedRepoUrl v = Some s \<longleftrightarrow>
     v = Some (JStr s) \<and> (startsWith s ''http://'' \<or> startsWith s ''https://'')"
  by (auto simp: acceptedRepoUrl_def startsWith_def split: option.splits json.splits)

subsection \<open>The file listing\<close>

text \<open>
  \<open>listFiles\<close> computes the first \<open>maxFiles\<close> non-excluded files of the tree, and
  never more than \<open>maxFiles\<close>.
\<close>

lemma listFiles_take:
  "readable r \<Longrightarrow> length fileList \<le> maxFiles \<Longrightarrow>
     listFiles dir r fileList maxFiles = Inr (take maxFiles (fileList @ filesOf dir r))"
  "readableEntries ds \<Longrightarrow> length fileList < maxFiles \<Longrightarrow>
     listFilesLoop dir ds fileList maxFiles = Inr (take maxFiles (fileList @ filesOfEntries dir ds))"
proof (induction dir r fileList maxFiles and dir ds fileList maxFiles
       rule: listFiles_listFilesLoop.induct)
  case (1 dir e fileList maxFiles)
  then show ?case by simp
next
  case (2 dir dirents fileList maxFiles)
  then show ?case by auto
next
  case (3 dir fileList maxFiles)
  then show ?case by simp
next
  case (4 dir n rest fileList maxFiles)
  then show ?case by (auto simp: excludedName_def Let_def take_Cons')
next
  case (5 dir n sub rest fileList maxFiles)
  show ?case
  proof (cases "excludedName n")
    case True
    with 5 show ?thesis by (auto simp: excludedName_def)
  next
    case False
    with "5.prems" have rs: "readable sub" and rr: "readableEntries rest" by auto
    from False have ne: "\<not> (n = ''.git'' \<or> n = ''node_modules'')" by (simp add: excludedName_def)
    define acc where "acc = fileList @ filesOf (joinRel dir n) sub"
    have sub: "listFiles (joinRel dir n) sub fileList maxFiles = Inr (take maxFiles acc)"
      using "5.IH"(2) [OF ne rs] "5.prems"(2) by (simp add: acc_def)
    have whole: "fileList @ filesOfEntries dir (Dir n sub # rest) = acc @ filesOfEntries dir rest"
      using False by (simp add: acc_def)
    show ?thesis
    proof (cases "maxFiles \<le> length acc")
      case True
      then have "take maxFiles (acc @ filesOfEntries dir rest) = take maxFiles acc" by simp
      moreover have "maxFiles \<le> length (take maxFiles acc)" using True by simp
      ultimately show ?thesis unfolding whole using sub ne by simp
    next
      case less: False
      then have t: "take maxFiles acc = acc" by simp
      have "listFilesLoop dir rest acc maxFiles = Inr (take maxFiles (acc @ filesOfEntries dir rest))"
        using "5.IH"(3) [OF ne, of acc] sub t less rr by simp
      then show ?thesis unfolding whole using sub ne t less by simp
    qed
  qed
qed

lemma listFiles_length:
  "length fileList \<le> maxFiles \<Longrightarrow> listFiles dir r fileList maxFiles = Inr l \<Longrightarrow> length l \<le> maxFiles"
  "length fileList < maxFiles \<Longrightarrow> listFilesLoop dir ds fileList maxFiles = Inr l \<Longrightarrow> length l \<le> maxFiles"
proof (induction dir r fileList maxFiles and dir ds fileList maxFiles arbitrary: l and l
       rule: listFiles_listFilesLoop.induct)
  case (1 dir e fileList maxFiles)
  then show ?case by (auto split: if_splits)
next
  case (2 dir dirents fileList maxFiles)
  then show ?case by (auto split: if_splits)
next
  case (3 dir fileList maxFiles)
  then show ?case by simp
next
  case (4 dir n rest fileList maxFiles)
  then show ?case by (auto simp: Let_def split: if_splits)
next
  case (5 dir n sub rest fileList maxFiles)
  then show ?case by (fastforce split: if_splits sum.splits)
qed

lemma splitPath_not_Nil [simp]: "splitPath s \<noteq> []"
  by (induction s) (auto split: list.splits)

lemma splitPath_append_slash: "splitPath (a @ CHR ''/'' # b) = splitPath a @ splitPath b"
  by (induction a) (auto split: list.splits)

lemma splitPath_plain: "CHR ''/'' \<notin> set n \<Longrightarrow> splitPath n = [n]"
  by (induction n) auto

lemma cleanPath_joinRel:
  assumes "cleanPath dir" and "CHR ''/'' \<notin> set n" and "\<not> excludedName n"
  shows "cleanPath (joinRel dir n)"
proof (cases "dir = []")
  case True
  then show ?thesis using assms by (simp add: joinRel_def cleanPath_def splitPath_plain)
next
  case False
  then have "splitPath (joinRel dir n) = splitPath dir @ [n]"
    using assms(2) by (simp add: joinRel_def splitPath_append_slash splitPath_plain)
  then show ?thesis using assms by (auto simp: cleanPath_def)
qed

lemma filesOf_clean:
  "slashFree r \<Longrightarrow> cleanPath dir \<Longrightarrow> \<forall>p \<in> set (filesOf dir r). cleanPath p"
  "slashFreeEntries ds \<Longrightarrow> cleanPath dir \<Longrightarrow> \<forall>p \<in> set (filesOfEntries dir ds). cleanPath p"
  by (induction dir r and dir ds rule: filesOf_filesOfEntries.induct)
     (auto simp: cleanPath_joinRel)

lemma cleanPath_root: "cleanPath []"
  by (simp add: cleanPath_def excludedName_def)

lemma filesOf_prefixed:
  "dir \<noteq> [] \<Longrightarrow> p \<in> set (filesOf dir r) \<Longrightarrow> \<exists>q. p = dir @ CHR ''/'' # q"
  "dir \<noteq> [] \<Longrightarrow> p \<in> set (filesOfEntries dir ds) \<Longrightarrow> \<exists>q. p = dir @ CHR ''/'' # q"
proof (induction dir r and dir ds rule: filesOf_filesOfEntries.induct)
  case (1 dir e)
  then show ?case by simp
next
  case (2 dir dirents)
  then show ?case by simp
next
  case (3 dir)
  then show ?case by simp
next
  case (4 dir n rest)
  then show ?case by (auto simp: joinRel_def split: if_splits)
next
  case (5 dir n sub rest)
  show ?case
  proof (cases "p \<in> set (filesOfEntries dir rest)")
    case True
    with 5 show ?thesis by simp
  next
    case False
    with "5.prems" have ex: "\<not> excludedName n" and p: "p \<in> set (filesOf (joinRel dir n) sub)"
      by (auto split: if_splits)
    have "joinRel dir n \<noteq> []" using "5.prems"(1) by (simp add: joinRel_def)
    with "5.IH"(1) [OF ex] p obtain q where "p = joinRel dir n @ CHR ''/'' # q" by blast
    then show ?thesis using "5.prems"(1) by (simp add: joinRel_def)
  qed
qed

lemma filesOfEntries_below:
  "distinctNamesEntries ds \<Longrightarrow> p \<in> set (filesOfEntries dir ds) \<Longrightarrow>
   \<exists>d \<in> set ds. below dir (direntName d) p"
proof (induction ds)
  case Nil
  then show ?case by simp
next
  case (Cons d ds)
  show ?case
  proof (cases "p \<in> set (filesOfEntries dir ds)")
    case True
    moreover have "distinctNamesEntries ds" using Cons.prems(1) by (cases d) simp_all
    ultimately show ?thesis using Cons.IH by auto
  next
    case False
    show ?thesis
    proof (cases d)
      case (File n)
      with False Cons.prems show ?thesis by (auto simp: below_def split: if_splits)
    next
      case (Dir n sub)
      with False Cons.prems have p: "p \<in> set (filesOf (joinRel dir n) sub)" and n: "n \<noteq> []"
        by (auto split: if_splits)
      from n have "joinRel dir n \<noteq> []" by (simp add: joinRel_def)
      from filesOf_prefixed(1) [OF this p] have "below dir n p" by (simp add: below_def)
      with Dir show ?thesis by simp
    qed
  qed
qed

lemma takeWhile_to_slash:
  "CHR ''/'' \<notin> set a \<Longrightarrow> takeWhile (\<lambda>c. c \<noteq> CHR ''/'') (a @ CHR ''/'' # x) = a"
  by (induction a) auto

lemma slash_free_head:
  assumes "CHR ''/'' \<notin> set a" and "CHR ''/'' \<notin> set b" and "a @ CHR ''/'' # x = b @ CHR ''/'' # y"
  shows "a = b"
proof -
  have "takeWhile (\<lambda>c. c \<noteq> CHR ''/'') (a @ CHR ''/'' # x) = a"
    using assms(1) by (rule takeWhile_to_slash)
  moreover have "takeWhile (\<lambda>c. c \<noteq> CHR ''/'') (b @ CHR ''/'' # y) = b"
    using assms(2) by (rule takeWhile_to_slash)
  ultimately show ?thesis using assms(3) by simp
qed

lemma below_same_name:
  assumes "below dir n p" and "below dir m p" and "CHR ''/'' \<notin> set n" and "CHR ''/'' \<notin> set m"
  shows "n = m"
proof -
  define D where "D = (if dir = [] then [] else dir @ ''/'')"
  have j: "joinRel dir k = D @ k" for k by (simp add: joinRel_def D_def)
  from assms(1) consider "p = D @ n" | q where "p = D @ n @ CHR ''/'' # q"
    by (auto simp: below_def j)
  then show ?thesis
  proof cases
    case 1
    from assms(2) consider "p = D @ m" | q' where "p = D @ m @ CHR ''/'' # q'"
      by (auto simp: below_def j)
    then show ?thesis
    proof cases
      case 1
      with \<open>p = D @ n\<close> show ?thesis by simp
    next
      case 2
      with \<open>p = D @ n\<close> have "n = m @ CHR ''/'' # q'" by simp
      with assms(3) show ?thesis by simp
    qed
  next
    case 2
    from assms(2) consider "p = D @ m" | q' where "p = D @ m @ CHR ''/'' # q'"
      by (auto simp: below_def j)
    then show ?thesis
    proof cases
      case 1
      with 2 have "m = n @ CHR ''/'' # q" by simp
      with assms(4) show ?thesis by simp
    next
      case (2 q')
      with \<open>p = D @ n @ CHR ''/'' # q\<close> have "n @ CHR ''/'' # q = m @ CHR ''/'' # q'" by simp
      with assms(3,4) show ?thesis by (rule slash_free_head)
    qed
  qed
qed

lemma slashFreeEntries_names:
  "slashFreeEntries ds \<Longrightarrow> d \<in> set ds \<Longrightarrow> CHR ''/'' \<notin> set (direntName d)"
proof (induction ds)
  case Nil
  then show ?case by simp
next
  case (Cons a ds)
  then show ?case by (cases a) auto
qed

lemma filesOf_distinct:
  "slashFree r \<Longrightarrow> distinctNames r \<Longrightarrow> distinct (filesOf dir r)"
  "slashFreeEntries ds \<Longrightarrow> distinctNamesEntries ds \<Longrightarrow> distinct (filesOfEntries dir ds)"
proof (induction dir r and dir ds rule: filesOf_filesOfEntries.induct)
  case (1 dir e)
  then show ?case by simp
next
  case (2 dir dirents)
  then show ?case by simp
next
  case (3 dir)
  then show ?case by simp
next
  case (4 dir n rest)
  have rest: "distinct (filesOfEntries dir rest)" using 4 by simp
  have "joinRel dir n \<notin> set (filesOfEntries dir rest)"
  proof
    assume "joinRel dir n \<in> set (filesOfEntries dir rest)"
    with "4.prems" obtain d where d: "d \<in> set rest" and b: "below dir (direntName d) (joinRel dir n)"
      using filesOfEntries_below [of rest "joinRel dir n" dir] by auto
    have "below dir n (joinRel dir n)" by (simp add: below_def)
    moreover have "CHR ''/'' \<notin> set (direntName d)"
      using "4.prems"(1) d slashFreeEntries_names [of rest d] by simp
    moreover have "CHR ''/'' \<notin> set n" using "4.prems"(1) by simp
    ultimately have "n = direntName d" using b below_same_name by blast
    with d "4.prems"(2) show False by auto
  qed
  with rest show ?case by simp
next
  case (5 dir n sub rest)
  have rest: "distinct (filesOfEntries dir rest)" using 5 by simp
  show ?case
  proof (cases "excludedName n")
    case True
    with rest show ?thesis by simp
  next
    case False
    have sub: "distinct (filesOf (joinRel dir n) sub)" using "5.IH"(1) [OF False] "5.prems" by simp
    have "set (filesOf (joinRel dir n) sub) \<inter> set (filesOfEntries dir rest) = {}"
    proof (rule ccontr)
      assume "set (filesOf (joinRel dir n) sub) \<inter> set (filesOfEntries dir rest) \<noteq> {}"
      then obtain p where p1: "p \<in> set (filesOf (joinRel dir n) sub)"
        and p2: "p \<in> set (filesOfEntries dir rest)" by blast
      from "5.prems"(2) have n: "n \<noteq> []" by simp
      then have "joinRel dir n \<noteq> []" by (simp add: joinRel_def)
      from filesOf_prefixed(1) [OF this p1] have b1: "below dir n p" by (simp add: below_def)
      from p2 "5.prems" obtain d where d: "d \<in> set rest" and b2: "below dir (direntName d) p"
        using filesOfEntries_below [of rest p dir] by auto
      have "CHR ''/'' \<notin> set (direntName d)"
        using "5.prems"(1) d slashFreeEntries_names [of rest d] by simp
      moreover have "CHR ''/'' \<notin> set n" using "5.prems"(1) by simp
      ultimately have "n = direntName d" using b1 b2 below_same_name by blast
      with d "5.prems"(2) show False by auto
    qed
    with sub rest False show ?thesis by simp
  qed
qed

text \<open>
  C5. For every repository with fewer non-excluded files than the file-count cap, all
  of whose directories can be read, the File Listing that \<open>listFiles\<close> returns is the
  list of the non-excluded files of the tree, one entry for each: no two entries are
  the same path (the names in a directory being distinct). And no entry has a component
  \<open>.git\<close> or \<open>node_modules\<close>: none lies inside such a directory.
\<close>

theorem listing_complete_below_cap:
  assumes "readable r" and "slashFree r" and "length (filesOf [] r) < maxFiles"
  shows "listFiles [] r [] maxFiles = Inr (filesOf [] r)
       \<and> (distinctNames r \<longrightarrow> distinct (filesOf [] r))
       \<and> (\<forall>p \<in> set (filesOf [] r).
             ''.git'' \<notin> set (splitPath p) \<and> ''node_modules'' \<notin> set (splitPath p))"
proof (intro conjI impI)
  have "listFiles [] r [] maxFiles = Inr (take maxFiles ([] @ filesOf [] r))"
    using assms(1) by (rule listFiles_take(1)) simp
  then show "listFiles [] r [] maxFiles = Inr (filesOf [] r)"
    using assms(3) by simp
next
  assume "distinctNames r"
  with assms(2) show "distinct (filesOf [] r)"
    by (rule filesOf_distinct(1))
next
  have "\<forall>p \<in> set (filesOf [] r). cleanPath p"
    using assms(2) cleanPath_root by (rule filesOf_clean(1))
  then show "\<forall>p \<in> set (filesOf [] r).
             ''.git'' \<notin> set (splitPath p) \<and> ''node_modules'' \<notin> set (splitPath p)"
    by (auto simp: cleanPath_def excludedName_def)
qed

theorem listing_complete_below_cap_witness:
  "readable (repo baseEnv) \<and> slashFree (repo baseEnv) \<and> distinctNames (repo baseEnv)
   \<and> length (filesOf [] (repo baseEnv)) < MAX_FILES_TO_LIST
   \<and> filesOf [] (repo baseEnv) = [''package.json'', ''src/index.js'']
   \<and> listFiles [] (repo baseEnv) [] MAX_FILES_TO_LIST = Inr [''package.json'', ''src/index.js'']
   \<and> distinct [''package.json'', ''src/index.js'']
   \<and> ''.git'' \<notin> set (splitPath ''package.json'')
   \<and> ''node_modules'' \<notin> set (splitPath ''package.json'')
   \<and> ''.git'' \<notin> set (splitPath ''src/index.js'')
   \<and> ''node_modules'' \<notin> set (splitPath ''src/index.js'')"
proof -
  have r: "readable (repo baseEnv)" and s: "slashFree (repo baseEnv)"
    and d: "distinctNames (repo baseEnv)"
    by (simp_all add: baseEnv_def excludedName_def)
  have f: "filesOf [] (repo baseEnv) = [''package.json'', ''src/index.js'']"
    by (simp add: baseEnv_def excludedName_def joinRel_def)
  have l: "length (filesOf [] (repo baseEnv)) < MAX_FILES_TO_LIST"
    by (simp add: f MAX_FILES_TO_LIST_def)
  from listing_complete_below_cap [OF r s l] r s d l f show ?thesis
    by simp
qed

subsection \<open>The summary line\<close>

lemma manyNames_length: "length manyNames = 101"
  by (simp add: manyNames_def)

lemma digitChar_evals:
  "digitChar 0 = CHR ''0''" "digitChar (Suc 0) = CHR ''1''" "digitChar 1 = CHR ''1''"
  "digitChar 2 = CHR ''2''"
  by code_simp+

lemma ev_showNat:
  "showNat 100 = ''100''" "showNat 1 = ''1''" "showNat (Suc 0) = ''1''" "showNat 2 = ''2''"
  by (simp_all add: showNat.simps digitChar_evals)

lemma filesOfEntries_map_File:
  "\<forall>n \<in> set ns. \<not> excludedName n \<Longrightarrow> filesOfEntries [] (map File ns) = ns"
  by (induction ns) (simp_all add: joinRel_def)

lemma readableEntries_map_File: "readableEntries (map File ns)"
  by (induction ns) simp_all

lemma manyNames_not_excluded: "\<forall>n \<in> set manyNames. \<not> excludedName n"
  by (simp add: manyNames_def excludedName_def)

lemma manyNames_short: "\<forall>n \<in> set manyNames. length n = 2"
  by (simp add: manyNames_def)

lemma manyNames_no_dot: "\<forall>n \<in> set manyNames. CHR ''.'' \<notin> set n"
  by (simp add: manyNames_def)

lemma filesOf_envManyFiles: "filesOf [] (repo envManyFiles) = manyNames"
  by (simp add: envManyFiles_def filesOfEntries_map_File manyNames_not_excluded)

lemma listFiles_envManyFiles:
  "listFiles [] (repo envManyFiles) [] MAX_FILES_TO_LIST = Inr (take 100 manyNames)"
proof -
  have "readable (repo envManyFiles)"
    by (simp add: envManyFiles_def readableEntries_map_File)
  then have "listFiles [] (repo envManyFiles) [] MAX_FILES_TO_LIST
               = Inr (take MAX_FILES_TO_LIST ([] @ filesOf [] (repo envManyFiles)))"
    by (rule listFiles_take(1)) simp
  then show ?thesis
    by (simp add: filesOf_envManyFiles MAX_FILES_TO_LIST_def)
qed

lemma keyFile_no_match:
  "findFirst (\<lambda>f. endsWith (toLowerCase f) (toLowerCase k)) fl = None \<Longrightarrow> keyFile e fl k st = Skip"
  by (simp add: keyFile_def)

lemma keyLoop_no_match:
  "\<forall>k \<in> set ks. findFirst (\<lambda>f. endsWith (toLowerCase f) (toLowerCase k)) fl = None \<Longrightarrow>
   keyLoop e fl ks st = st"
  by (induction ks arbitrary: st) (simp_all add: keyFile_no_match)

lemma short_name_no_match:
  "length f < length k \<Longrightarrow> \<not> endsWith (toLowerCase f) (toLowerCase k)"
  by (auto simp: endsWith_def toLowerCase_def dest: suffix_length_le)

lemma findFirst_None: "(\<forall>x \<in> set xs. \<not> P x) \<Longrightarrow> findFirst P xs = None"
  by (induction xs) auto

lemma keyFiles_long: "\<forall>k \<in> set keyFiles. 6 \<le> length k"
  by (simp add: keyFiles_def)

lemma manyNames_no_key:
  assumes "k \<in> set keyFiles"
  shows "findFirst (\<lambda>f. endsWith (toLowerCase f) (toLowerCase k)) (take 100 manyNames) = None"
proof (rule findFirst_None, rule ballI, rule short_name_no_match)
  fix f assume "f \<in> set (take 100 manyNames)"
  then have "f \<in> set manyNames" by (rule in_set_takeD)
  then have "length f = 2" using manyNames_short by blast
  moreover have "6 \<le> length k" using assms keyFiles_long by blast
  ultimately show "length f < length k" by simp
qed

lemma listLoop_chars:
  "set (extractedContext (listLoop fs st))
     \<subseteq> set (extractedContext st) \<union> (\<Union>f \<in> set fs. set f) \<union> set ''- \<newline>''"
proof (induction fs arbitrary: st)
  case Nil
  then show ?case by auto
next
  case (Cons f fs)
  let ?line = "''- '' @ f @ ''\<newline>''"
  let ?st' = "st\<lparr>extractedContext := extractedContext st @ ?line,
                  totalContextLength := totalContextLength st + length ?line\<rparr>"
  show ?case
  proof (cases "totalContextLength st + length ?line < MAX_TOTAL_CONTEXT_LENGTH")
    case True
    then have "listLoop (f # fs) st = listLoop fs ?st'" by (simp add: Let_def)
    moreover have "set (extractedContext ?st') \<subseteq> set (extractedContext st) \<union> set f \<union> set ''- \<newline>''"
      by auto
    ultimately show ?thesis using Cons.IH [of ?st'] by auto
  next
    case False
    then have "listLoop (f # fs) st = listLoop fs st" by (simp add: Let_def)
    then show ?thesis using Cons.IH [of st] by auto
  qed
qed

lemma listLoop_count [simp]: "filesReadCount (listLoop fs st) = filesReadCount st"
  by (induction fs arbitrary: st) (simp_all add: Let_def)

lemma sublist_chars: "sublist p s \<Longrightarrow> set p \<subseteq> set s"
  by (auto simp: sublist_def)

lemma extractFrom_envManyFiles_no_dot:
  "CHR ''.'' \<notin> set (extractedContext (extractFrom envManyFiles (take 100 manyNames)))"
proof -
  let ?fl = "take 100 manyNames"
  define header where "header = ''Repository Structure and Key Files:\<newline>\<newline>''"
  define st1 where
    "st1 = \<lparr>extractedContext = header @ ''File List (100 files shown):\<newline>'',
            totalContextLength = length header, filesReadCount = 0\<rparr>"
  have k: "keyLoop envManyFiles ?fl keyFiles st = st" for st
    by (rule keyLoop_no_match) (simp add: manyNames_no_key)
  have ctx: "extractedContext (extractFrom envManyFiles ?fl)
               = extractedContext (listLoop ?fl st1)
                 @ ''\<newline>Key File Contents:\<newline>(No key files identified or read)\<newline>''"
    unfolding extractFrom_def Let_def k st1_def header_def
    by (simp add: manyNames_length appendUncounted_def MAX_FILES_TO_LIST_def ev_showNat)
  have "CHR ''.'' \<notin> (\<Union>f \<in> set ?fl. set f)"
    using manyNames_no_dot by (auto dest: in_set_takeD)
  moreover have "CHR ''.'' \<notin> set (extractedContext st1)"
    by (simp add: st1_def header_def)
  ultimately have "CHR ''.'' \<notin> set (extractedContext (listLoop ?fl st1))"
    using listLoop_chars [of ?fl st1] by auto
  then show ?thesis unfolding ctx by simp
qed

text \<open>
  C2 does not hold of the handler. For a repository of 101 files the listing has the
  100 entries of the cap, but since \<open>listFiles\<close> never returns more than the cap, the
  test \<open>allFiles.length > MAX_FILES_TO_LIST\<close> is never true: the context has no line
  \<open>- ... (and 1 more files)\<close>.
\<close>

theorem summary_line_never_written:
  "length (filesOf [] (repo envManyFiles)) = 101
   \<and> listFiles [] (repo envManyFiles) [] MAX_FILES_TO_LIST = Inr (take 100 manyNames)
   \<and> (case extractContext envManyFiles of
         Inl err \<Rightarrow> False
       | Inr st \<Rightarrow> \<not> includesStr (extractedContext st) ''- ... (and '')"
proof (intro conjI)
  show "length (filesOf [] (repo envManyFiles)) = 101"
    by (simp add: filesOf_envManyFiles manyNames_length)
  show "listFiles [] (repo envManyFiles) [] MAX_FILES_TO_LIST = Inr (take 100 manyNames)"
    by (rule listFiles_envManyFiles)
  have "\<not> sublist ''- ... (and '' (extractedContext (extractFrom envManyFiles (take 100 manyNames)))"
    using extractFrom_envManyFiles_no_dot sublist_chars by fastforce
  then show "case extractContext envManyFiles of
         Inl err \<Rightarrow> False
       | Inr st \<Rightarrow> \<not> includesStr (extractedContext st) ''- ... (and ''"
    by (simp add: extractContext_def listFiles_envManyFiles includesStr_def)
qed

subsection \<open>The budget\<close>

lemma listFiles_envLongPath:
  "listFiles [] (repo envLongPath) [] MAX_FILES_TO_LIST = Inr [longPath]"
  by (simp add: envLongPath_def longPath_def MAX_FILES_TO_LIST_def joinRel_def)

lemma longPath_length: "length longPath = 45"
  by (simp add: longPath_def)

lemma longPath_first_key:
  "endsWith (toLowerCase longPath) (toLowerCase ''package.json'')"
  unfolding longPath_def by code_simp

lemma longPath_other_keys:
  "\<forall>k \<in> set (tl keyFiles).
     findFirst (\<lambda>f. endsWith (toLowerCase f) (toLowerCase k)) [longPath] = None"
  unfolding longPath_def by code_simp

lemma longPath_not_empty: "longPath \<noteq> []"
  by (simp add: longPath_def)

lemma keyFile_envLongPath:
  "keyFile envLongPath [longPath] ''package.json'' st =
     (let section = sectionOf longPath (replicate 20000 (CHR ''x'')) (totalContextLength st)
      in if totalContextLength st + length section < MAX_TOTAL_CONTEXT_LENGTH
         then Append longPath section else Exhausted)"
  by (simp add: keyFile_def longPath_first_key longPath_not_empty envLongPath_def
      MAX_FILE_READ_SIZE_BYTES_def)

lemma sectionOf_envLongPath:
  "length (sectionOf longPath (replicate 20000 (CHR ''x'')) 85) = 14881"
  by (simp add: sectionOf_def slice0_def MAX_TOTAL_CONTEXT_LENGTH_def longPath_length)

lemma keyLoop_envLongPath:
  assumes "totalContextLength st = 85" and "filesReadCount st = 0"
  shows "keyLoop envLongPath [longPath] keyFiles st
           = commit (sectionOf longPath (replicate 20000 (CHR ''x'')) 85) st"
proof -
  have rest: "keyLoop envLongPath [longPath] (tl keyFiles) st' = st'" for st'
    by (rule keyLoop_no_match) (rule longPath_other_keys)
  have "keyFiles = ''package.json'' # tl keyFiles"
    by (simp add: keyFiles_def)
  then have "keyLoop envLongPath [longPath] keyFiles st
          = keyLoop envLongPath [longPath] (''package.json'' # tl keyFiles) st"
    by simp
  also have "\<dots> = commit (sectionOf longPath (replicate 20000 (CHR ''x'')) 85) st"
    using assms sectionOf_envLongPath
    by (simp add: keyFile_envLongPath rest MAX_FILE_CONTENT_TO_INCLUDE_def MAX_TOTAL_CONTEXT_LENGTH_def)
  finally show ?thesis .
qed

text \<open>The counter never reaches the budget.\<close>

lemma listLoop_counter:
  "totalContextLength st < MAX_TOTAL_CONTEXT_LENGTH \<Longrightarrow>
   totalContextLength (listLoop fs st) < MAX_TOTAL_CONTEXT_LENGTH"
  by (induction fs arbitrary: st) (simp_all add: Let_def)

lemma keyFile_Append_fits:
  "keyFile e fl k st = Append p sec \<Longrightarrow>
   totalContextLength st + length sec < MAX_TOTAL_CONTEXT_LENGTH"
  by (auto simp: keyFile_def Let_def split: option.splits sum.splits if_splits)

lemma keyLoop_counter:
  "totalContextLength st < MAX_TOTAL_CONTEXT_LENGTH \<Longrightarrow>
   totalContextLength (keyLoop e fl ks st) < MAX_TOTAL_CONTEXT_LENGTH"
proof (induction ks arbitrary: st)
  case Nil
  then show ?case by simp
next
  case (Cons k ks)
  show ?case
  proof (cases "keyFile e fl k st")
    case Skip
    with Cons show ?thesis by simp
  next
    case (Append p sec)
    then have "totalContextLength (commit sec st) < MAX_TOTAL_CONTEXT_LENGTH"
      using keyFile_Append_fits [of e fl k st p sec] by (simp add: commit_def)
    with Append Cons show ?thesis by simp
  next
    case Exhausted
    with Cons show ?thesis by simp
  qed
qed

lemma counter_below_budget:
  "totalContextLength (extractFrom e fl) < MAX_TOTAL_CONTEXT_LENGTH"
proof -
  have a: "totalContextLength st < MAX_TOTAL_CONTEXT_LENGTH \<Longrightarrow>
           totalContextLength (appendUncounted s st) < MAX_TOTAL_CONTEXT_LENGTH" for s st
    by (simp add: appendUncounted_def)
  have b: "totalContextLength st < MAX_TOTAL_CONTEXT_LENGTH \<Longrightarrow>
           totalContextLength (if c then appendUncounted s st else st) < MAX_TOTAL_CONTEXT_LENGTH"
    for c s st
    by (simp add: appendUncounted_def)
  have h: "totalContextLength
             \<lparr>extractedContext = ''Repository Structure and Key Files:\<newline>\<newline>'',
              totalContextLength = length ''Repository Structure and Key Files:\<newline>\<newline>'',
              filesReadCount = 0\<rparr> < MAX_TOTAL_CONTEXT_LENGTH"
    by (simp add: MAX_TOTAL_CONTEXT_LENGTH_def)
  show ?thesis
    unfolding extractFrom_def Let_def
    by (intro b a keyLoop_counter listLoop_counter h)
qed

text \<open>
  C1 does not hold of the handler. The counter \<open>totalContextLength\<close> is checked and
  advanced for the lines of the listing and for the sections of the key files, but not
  for the headers, the blank line and the placeholder, which are appended without a
  test. For a repository of one \<open>package.json\<close> of 20000 characters at a path of 45
  characters, the counter ends at 14966 and the context has 15013 characters, more than
  the budget of 15000.
\<close>

theorem context_longer_than_budget:
  "case extractContext envLongPath of
     Inl err \<Rightarrow> False
   | Inr st \<Rightarrow> length (extractedContext st) = 15013 \<and> totalContextLength st = 14966
              \<and> MAX_TOTAL_CONTEXT_LENGTH = 15000"
proof -
  define header where "header = ''Repository Structure and Key Files:\<newline>\<newline>''"
  define st5 where
    "st5 = \<lparr>extractedContext =
              header @ ''File List (1 files shown):\<newline>'' @ ''- '' @ longPath @ ''\<newline>''
              @ ''\<newline>'' @ ''Key File Contents:\<newline>'',
            totalContextLength = length header + length (''- '' @ longPath @ ''\<newline>''),
            filesReadCount = 0\<rparr>"
  have t: "totalContextLength st5 = 85" and c: "filesReadCount st5 = 0"
    and l: "length (extractedContext st5) = 132"
    by (simp_all add: st5_def header_def longPath_length)
  have "extractFrom envLongPath [longPath]
          = (let st6 = keyLoop envLongPath [longPath] keyFiles st5
             in if filesReadCount st6 = 0
                then appendUncounted ''(No key files identified or read)\<newline>'' st6 else st6)"
    unfolding extractFrom_def Let_def st5_def header_def
    by (simp add: appendUncounted_def MAX_FILES_TO_LIST_def MAX_TOTAL_CONTEXT_LENGTH_def
        ev_showNat longPath_length)
  also have "\<dots> = commit (sectionOf longPath (replicate 20000 (CHR ''x'')) 85) st5"
    by (simp add: keyLoop_envLongPath [OF t c] commit_def)
  finally have e: "extractFrom envLongPath [longPath]
                    = commit (sectionOf longPath (replicate 20000 (CHR ''x'')) 85) st5" .
  show ?thesis
    by (simp add: extractContext_def listFiles_envLongPath e commit_def t l
        sectionOf_envLongPath MAX_TOTAL_CONTEXT_LENGTH_def)
qed

subsection \<open>The key files\<close>






lemma keyLoop_skips:
  "\<forall>st. keyFile e fl k st = Skip \<Longrightarrow>
   keyLoop e fl (ks1 @ k # ks2) st = keyLoop e fl (ks1 @ ks2) st"
proof (induction ks1 arbitrary: st)
  case Nil
  then show ?case by (cases ks2) simp_all
next
  case (Cons a ks1)
  then show ?case by (auto split: key_outcome.splits)
qed










lemmas keyLoop_eval = keyFile_def sectionOf_def slice0_def commit_def
  MAX_FILE_CONTENT_TO_INCLUDE_def MAX_TOTAL_CONTEXT_LENGTH_def MAX_FILE_READ_SIZE_BYTES_def






lemma keyFile_readFile_irrelevant:
  "rejectedByStat e p \<Longrightarrow>
   keyFile (e\<lparr>readFile := (readFile e)(p := r)\<rparr>) fl k st = keyFile e fl k st"
  by (auto simp: keyFile_def rejectedByStat_def split: option.splits sum.splits)

lemma keyLoop_readFile_irrelevant:
  "rejectedByStat e p \<Longrightarrow>
   keyLoop (e\<lparr>readFile := (readFile e)(p := r)\<rparr>) fl ks st = keyLoop e fl ks st"
  by (induction ks arbitrary: st)
     (auto simp: keyFile_readFile_irrelevant split: key_outcome.splits)

lemma extractContext_readFile_irrelevant:
  "rejectedByStat e p \<Longrightarrow>
   extractContext (e\<lparr>readFile := (readFile e)(p := r)\<rparr>) = extractContext e"
  by (simp add: extractContext_def extractFrom_def keyLoop_readFile_irrelevant
      cong: sum.case_cong)

lemma keyFile_rejected:
  assumes "findFirst (\<lambda>f. endsWith (toLowerCase f) (toLowerCase k)) fl = Some p"
    and "rejectedByStat e p \<or> readFails e p"
  shows "keyFile e fl k st = Skip"
  using assms
  by (auto simp: keyFile_def rejectedByStat_def readFails_def split: sum.splits)

text \<open>
  C6. A matched key file for which \<open>stat\<close> throws, or which is not a regular file, or
  which is larger than \<open>MAX_FILE_READ_SIZE_BYTES\<close>, is never read into the context: the
  extracted context is the same whatever reading that file would give. And for such a
  file, as for one whose read throws, the iteration of its key name changes nothing and
  the loop goes on with the names that follow, as if the name were not in the list.
\<close>

theorem rejected_key_file_is_skipped:
  "(rejectedByStat e p \<longrightarrow>
      extractContext (e\<lparr>readFile := (readFile e)(p := r)\<rparr>) = extractContext e)
   \<and> (findFirst (\<lambda>f. endsWith (toLowerCase f) (toLowerCase k)) fl = Some p
        \<and> (rejectedByStat e p \<or> readFails e p) \<longrightarrow>
          keyFile e fl k st = Skip
          \<and> keyLoop e fl (ks1 @ k # ks2) st = keyLoop e fl (ks1 @ ks2) st)"
proof (intro conjI impI)
  assume "rejectedByStat e p"
  then show "extractContext (e\<lparr>readFile := (readFile e)(p := r)\<rparr>) = extractContext e"
    by (rule extractContext_readFile_irrelevant)
next
  assume a: "findFirst (\<lambda>f. endsWith (toLowerCase f) (toLowerCase k)) fl = Some p
        \<and> (rejectedByStat e p \<or> readFails e p)"
  then have skip: "keyFile e fl k st' = Skip" for st'
    using keyFile_rejected by blast
  then show "keyFile e fl k st = Skip" .
  from skip show "keyLoop e fl (ks1 @ k # ks2) st = keyLoop e fl (ks1 @ ks2) st"
    by (intro keyLoop_skips) blast
qed

lemma bigFiles_matches:
  "findFirst (\<lambda>f. endsWith (toLowerCase f) (toLowerCase ''package.json'')) bigFiles = Some ''package.json''"
  "findFirst (\<lambda>f. endsWith (toLowerCase f) (toLowerCase ''composer.json'')) bigFiles = None"
  "findFirst (\<lambda>f. endsWith (toLowerCase f) (toLowerCase ''requirements.txt'')) bigFiles = None"
  "findFirst (\<lambda>f. endsWith (toLowerCase f) (toLowerCase ''Pipfile'')) bigFiles = None"
  "findFirst (\<lambda>f. endsWith (toLowerCase f) (toLowerCase ''Gemfile'')) bigFiles = None"
  "findFirst (\<lambda>f. endsWith (toLowerCase f) (toLowerCase ''pom.xml'')) bigFiles = None"
  "findFirst (\<lambda>f. endsWith (toLowerCase f) (toLowerCase ''build.gradle'')) bigFiles = None"
  "findFirst (\<lambda>f. endsWith (toLowerCase f) (toLowerCase ''Makefile'')) bigFiles = None"
  "findFirst (\<lambda>f. endsWith (toLowerCase f) (toLowerCase ''Dockerfile'')) bigFiles = None"
  "findFirst (\<lambda>f. endsWith (toLowerCase f) (toLowerCase ''docker-compose.yml'')) bigFiles = None"
  "findFirst (\<lambda>f. endsWith (toLowerCase f) (toLowerCase ''README'')) bigFiles = None"
  "findFirst (\<lambda>f. endsWith (toLowerCase f) (toLowerCase ''README.md'')) bigFiles = Some ''README.md''"
  "findFirst (\<lambda>f. endsWith (toLowerCase f) (toLowerCase ''README.rst'')) bigFiles = None"
  unfolding bigFiles_def by code_simp+

lemma listFiles_envBigManifest:
  "listFiles [] (repo envBigManifest) [] MAX_FILES_TO_LIST = Inr bigFiles"
  by (simp add: envBigManifest_def bigFiles_def MAX_FILES_TO_LIST_def joinRel_def)

lemma extractContext_envBigManifest:
  "extractContext envBigManifest =
     Inr \<lparr>extractedContext =
            ''Repository Structure and Key Files:\<newline>\<newline>File List (2 files shown):\<newline>- package.json\<newline>- README.md\<newline>\<newline>Key File Contents:\<newline>\<newline>--- File: README.md ---\<newline># Title\<newline>---\<newline>'',
          totalContextLength = 101, filesReadCount = 1\<rparr>"
proof -
  have len: "length bigFiles = 2" and lines: "take MAX_FILES_TO_LIST bigFiles = bigFiles"
    by (simp_all add: bigFiles_def MAX_FILES_TO_LIST_def)
  have loop: "listLoop bigFiles st =
                listLoop [''package.json'', ''README.md''] st" for st
    by (simp add: bigFiles_def)
  show ?thesis
    unfolding extractContext_def listFiles_envBigManifest
    by (simp add: extractFrom_def Let_def len lines loop appendUncounted_def keyFiles_def
        ev_showNat bigFiles_matches keyLoop_eval MAX_FILES_TO_LIST_def envBigManifest_def)
qed

theorem rejected_key_file_is_skipped_witness:
  "rejectedByStat envBigManifest ''package.json''
   \<and> extractContext
         (envBigManifest\<lparr>readFile := (readFile envBigManifest)(''package.json'' := Inr ''{}'')\<rparr>)
       = extractContext envBigManifest
   \<and> findFirst (\<lambda>f. endsWith (toLowerCase f) (toLowerCase ''package.json'')) bigFiles
       = Some ''package.json''
   \<and> keyFile envBigManifest bigFiles ''package.json'' tightState = Skip
   \<and> keyLoop envBigManifest bigFiles keyFiles tightState
       = keyLoop envBigManifest bigFiles (tl keyFiles) tightState
   \<and> extractContext envBigManifest =
       Inr \<lparr>extractedContext =
              ''Repository Structure and Key Files:\<newline>\<newline>File List (2 files shown):\<newline>- package.json\<newline>- README.md\<newline>\<newline>Key File Contents:\<newline>\<newline>--- File: README.md ---\<newline># Title\<newline>---\<newline>'',
            totalContextLength = 101, filesReadCount = 1\<rparr>
   \<and> findFirst (\<lambda>f. endsWith (toLowerCase f) (toLowerCase ''README.md'')) bigFiles
       = Some ''README.md''
   \<and> readFails envUnreadable ''README.md''
   \<and> keyFile envUnreadable bigFiles ''README.md'' tightState = Skip"
proof -
  have rej: "rejectedByStat envBigManifest ''package.json''"
    by (simp add: rejectedByStat_def envBigManifest_def MAX_FILE_READ_SIZE_BYTES_def)
  have found: "findFirst (\<lambda>f. endsWith (toLowerCase f) (toLowerCase ''package.json'')) bigFiles
                 = Some ''package.json''"
    by (rule bigFiles_matches)
  have keys: "keyFiles = [] @ ''package.json'' # tl keyFiles"
    by (simp add: keyFiles_def)
  note inst = rejected_key_file_is_skipped
    [of envBigManifest "''package.json''" "Inr ''{}''" "''package.json''" bigFiles tightState
        "[]" "tl keyFiles"]
  from inst rej have a: "extractContext
         (envBigManifest\<lparr>readFile := (readFile envBigManifest)(''package.json'' := Inr ''{}'')\<rparr>)
       = extractContext envBigManifest"
    by blast
  from inst rej found have b: "keyFile envBigManifest bigFiles ''package.json'' tightState = Skip"
    and c0: "keyLoop envBigManifest bigFiles ([] @ ''package.json'' # tl keyFiles) tightState
           = keyLoop envBigManifest bigFiles ([] @ tl keyFiles) tightState"
    by blast+
  have c: "keyLoop envBigManifest bigFiles keyFiles tightState
       = keyLoop envBigManifest bigFiles (tl keyFiles) tightState"
    using c0 unfolding keys [symmetric] by simp
  have found': "findFirst (\<lambda>f. endsWith (toLowerCase f) (toLowerCase ''README.md'')) bigFiles
                  = Some ''README.md''"
    by (rule bigFiles_matches)
  have fails: "readFails envUnreadable ''README.md''"
    by (simp add: readFails_def envUnreadable_def)
  from rejected_key_file_is_skipped
    [of envUnreadable "''README.md''" "Inr ''{}''" "''README.md''" bigFiles tightState "[]" "[]"]
    found' fails
  have d: "keyFile envUnreadable bigFiles ''README.md'' tightState = Skip"
    by blast
  from rej a found b c extractContext_envBigManifest found' fails d show ?thesis
    by (intro conjI)
qed

subsection \<open>The credential\<close>

text \<open>
  C9. If the provider credential \<open>GOOGLE_API_KEY\<close> is absent, every POST request is
  answered at once with status 500 and the configuration error, with no effect at all:
  no temporary directory is asked for and no clone is run.
\<close>

theorem missing_credential_fails_first:
  "API_KEY e = None \<Longrightarrow>
   POST e = (\<lparr>status = 500, payload = ErrorBody ''API Key not configured.''\<rparr>, [])"
  by (simp add: POST_def genAI_def)

theorem missing_credential_fails_first_witness:
  "API_KEY envNoKey = None
   \<and> POST envNoKey = (\<lparr>status = 500, payload = ErrorBody ''API Key not configured.''\<rparr>, [])"
  using missing_credential_fails_first [of envNoKey] by (simp add: envNoKey_def)

subsection \<open>The temporary directory\<close>

text \<open>
  C4. On every exit path of the POST handler on which the temporary directory \<open>d\<close> has
  been created, the last thing the handler does is to call \<open>fs.rm\<close> on \<open>d\<close>, once and
  not before; when that removal succeeds nothing follows, and when it fails the failure
  is logged and nothing else happens. The answer of the handler is the same whatever
  the removal does: its failure is not raised over the result or the error of the
  request.
\<close>

theorem temp_dir_removed_on_every_exit:
  "(Created d \<in> set (snd (POST e)) \<longrightarrow>
      (\<exists>pre. Rm d \<notin> set pre \<and> LogRmFailed d \<notin> set pre
          \<and> snd (POST e)
              = pre @ (case rm e d of None \<Rightarrow> [Rm d] | Some err \<Rightarrow> [Rm d, LogRmFailed d])))
   \<and> fst (POST (e\<lparr>rm := r\<rparr>)) = fst (POST e)"
proof
  show "Created d \<in> set (snd (POST e)) \<longrightarrow>
      (\<exists>pre. Rm d \<notin> set pre \<and> LogRmFailed d \<notin> set pre
          \<and> snd (POST e)
              = pre @ (case rm e d of None \<Rightarrow> [Rm d] | Some err \<Rightarrow> [Rm d, LogRmFailed d]))"
  proof
    assume created: "Created d \<in> set (snd (POST e))"
    then have g: "genAI e \<noteq> None"
      by (auto simp: POST_def split: if_splits)
    from tryBlock_cases [of e] consider
      (invalid) r where "tryBlock e = (r, None, [])"
    | (no_dir) r where "tryBlock e = (r, None, [Mkdtemp])"
    | (dir) r rnd u where
        "tryBlock e =
           (r, Some (tmpdir e @ ''/gemini-readme-'' @ rnd),
            Mkdtemp # Created (tmpdir e @ ''/gemini-readme-'' @ rnd)
              # snd (pipeline e u (tmpdir e @ ''/gemini-readme-'' @ rnd)))"
      by blast
    then show "\<exists>pre. Rm d \<notin> set pre \<and> LogRmFailed d \<notin> set pre
          \<and> snd (POST e)
              = pre @ (case rm e d of None \<Rightarrow> [Rm d] | Some err \<Rightarrow> [Rm d, LogRmFailed d])"
    proof cases
      case invalid
      then show ?thesis using created g by (simp add: POST_def finallyBlock_def)
    next
      case no_dir
      then show ?thesis using created g by (simp add: POST_def finallyBlock_def)
    next
      case dir
      let ?t = "tmpdir e @ ''/gemini-readme-'' @ rnd"
      let ?pre = "Mkdtemp # Created ?t # snd (pipeline e u ?t)"
      have d: "d = ?t"
        using dir created g pipeline_effects [of e u ?t]
        by (auto simp: POST_def finallyBlock_def split: option.splits)
      have "snd (POST e)
              = ?pre @ (case rm e ?t of None \<Rightarrow> [Rm ?t] | Some err \<Rightarrow> [Rm ?t, LogRmFailed ?t])"
        using dir g by (simp add: POST_def finallyBlock_def split: option.splits)
      moreover have "Rm ?t \<notin> set ?pre \<and> LogRmFailed ?t \<notin> set ?pre"
        using pipeline_effects [of e u ?t] by auto
      ultimately show ?thesis unfolding d by blast
    qed
  qed
next
  show "fst (POST (e\<lparr>rm := r\<rparr>)) = fst (POST e)"
    by (simp add: POST_def genAI_def split: prod.splits)
qed

theorem temp_dir_removed_on_every_exit_witness:
  "Created ''/tmp/gemini-readme-Ab12Cd'' \<in> set (snd (POST baseEnv))
   \<and> rm baseEnv ''/tmp/gemini-readme-Ab12Cd'' = None
   \<and> (\<exists>pre. Rm ''/tmp/gemini-readme-Ab12Cd'' \<notin> set pre
         \<and> LogRmFailed ''/tmp/gemini-readme-Ab12Cd'' \<notin> set pre
         \<and> snd (POST baseEnv) = pre @ [Rm ''/tmp/gemini-readme-Ab12Cd''])
   \<and> Created ''/tmp/gemini-readme-Ab12Cd'' \<in> set (snd (POST envRmFails))
   \<and> rm envRmFails ''/tmp/gemini-readme-Ab12Cd''
       = Some \<lparr>code = Some ''EBUSY'', message = Some ''EBUSY: resource busy or locked''\<rparr>
   \<and> (\<exists>pre. Rm ''/tmp/gemini-readme-Ab12Cd'' \<notin> set pre
         \<and> LogRmFailed ''/tmp/gemini-readme-Ab12Cd'' \<notin> set pre
         \<and> snd (POST envRmFails)
             = pre @ [Rm ''/tmp/gemini-readme-Ab12Cd'', LogRmFailed ''/tmp/gemini-readme-Ab12Cd''])
   \<and> snd (POST envRmFails) =
       [Mkdtemp, Created ''/tmp/gemini-readme-Ab12Cd'',
        Clone ''https://'' ''/tmp/gemini-readme-Ab12Cd'', Rm ''/tmp/gemini-readme-Ab12Cd'',
        LogRmFailed ''/tmp/gemini-readme-Ab12Cd'']
   \<and> fst (POST envRmFails) = fst (POST envBareScheme)
   \<and> fst (POST envRmFails) = \<lparr>status = 500, payload = ErrorBody ''fatal: unable to access''\<rparr>"
proof -
  let ?d = "''/tmp/gemini-readme-Ab12Cd''"
  have c1: "Created ?d \<in> set (snd (POST baseEnv))"
    by (simp add: POST_baseEnv)
  have r1: "rm baseEnv ?d = None"
    by (simp add: baseEnv_def)
  have c2: "Created ?d \<in> set (snd (POST envRmFails))"
    by (simp add: POST_envRmFails)
  have r2: "rm envRmFails ?d
              = Some \<lparr>code = Some ''EBUSY'', message = Some ''EBUSY: resource busy or locked''\<rparr>"
    by (simp add: envRmFails_def)
  from temp_dir_removed_on_every_exit [of ?d baseEnv] c1
  have e1: "\<exists>pre. Rm ?d \<notin> set pre \<and> LogRmFailed ?d \<notin> set pre
              \<and> snd (POST baseEnv) = pre @ [Rm ?d]"
    by (simp add: r1)
  from temp_dir_removed_on_every_exit [of ?d envRmFails] c2
  have e2: "\<exists>pre. Rm ?d \<notin> set pre \<and> LogRmFailed ?d \<notin> set pre
              \<and> snd (POST envRmFails) = pre @ [Rm ?d, LogRmFailed ?d]"
    by (simp add: r2)
  have same: "fst (POST envRmFails) = fst (POST envBareScheme)"
    unfolding envRmFails_def using temp_dir_removed_on_every_exit [of ?d envBareScheme] by blast
  have effs: "snd (POST envRmFails) =
       [Mkdtemp, Created ?d, Clone ''https://'' ?d, Rm ?d, LogRmFailed ?d]"
    and resp: "fst (POST envRmFails)
                 = \<lparr>status = 500, payload = ErrorBody ''fatal: unable to access''\<rparr>"
    by (simp_all add: POST_envRmFails)
  from c1 r1 e1 c2 r2 e2 effs same resp show ?thesis
    by (intro conjI)
qed

subsection \<open>Validation of the request\<close>

text \<open>
  C7, as the handler has it. With the credential configured, for every POST request
  whose JSON body is not \<open>null\<close> and is missing \<open>repoUrl\<close>, has a \<open>repoUrl\<close> that is
  not a string, or has a \<open>repoUrl\<close> that does not start with \<open>http://\<close> or
  \<open>https://\<close>, the handler answers with status 400 and an error field and has no
  effect: no temporary directory is asked for and no clone is run.
\<close>

theorem invalid_repoUrl_rejected_without_effects:
  assumes "genAI e \<noteq> None" and "requestJson e = Inr b" and "getRepoUrl e b = Inr v"
    and "case v of Some (JStr s) \<Rightarrow> \<not> startsWith s ''http://'' \<and> \<not> startsWith s ''https://''
         | _ \<Rightarrow> True"
  shows "POST e = (\<lparr>status = 400, payload = ErrorBody ''Invalid repository URL provided.''\<rparr>, [])"
proof -
  have "acceptedRepoUrl v = None"
    using assms(4) by (auto simp: acceptedRepoUrl_def split: option.splits json.splits)
  then show ?thesis
    using assms(1-3) by (simp add: POST_def tryBlock_def finallyBlock_def)
qed

theorem invalid_repoUrl_rejected_without_effects_witness:
  "genAI envFtp \<noteq> None
   \<and> requestJson envFtp = Inr (JObj [(''repoUrl'', JStr ''ftp://example.com/r'')])
   \<and> getRepoUrl envFtp (JObj [(''repoUrl'', JStr ''ftp://example.com/r'')])
       = Inr (Some (JStr ''ftp://example.com/r''))
   \<and> \<not> startsWith ''ftp://example.com/r'' ''http://''
   \<and> \<not> startsWith ''ftp://example.com/r'' ''https://''
   \<and> POST envFtp = (\<lparr>status = 400, payload = ErrorBody ''Invalid repository URL provided.''\<rparr>, [])"
proof -
  have g: "genAI envFtp \<noteq> None"
    by (simp add: genAI_def envFtp_def baseEnv_def)
  have b: "requestJson envFtp = Inr (JObj [(''repoUrl'', JStr ''ftp://example.com/r'')])"
    by (simp add: envFtp_def)
  have v: "getRepoUrl envFtp (JObj [(''repoUrl'', JStr ''ftp://example.com/r'')])
             = Inr (Some (JStr ''ftp://example.com/r''))"
    by (simp add: getRepoUrl_def)
  have p: "\<not> startsWith ''ftp://example.com/r'' ''http://''
           \<and> \<not> startsWith ''ftp://example.com/r'' ''https://''"
    by (simp add: startsWith_def)
  from p have c: "case Some (JStr ''ftp://example.com/r'') of
          Some (JStr s) \<Rightarrow> \<not> startsWith s ''http://'' \<and> \<not> startsWith s ''https://''
        | _ \<Rightarrow> True"
    by simp
  from invalid_repoUrl_rejected_without_effects [OF g b v c] g b v p show ?thesis
    by blast
qed

text \<open>
  C7 as it is stated fails. \<open>https://\<close> alone is not a valid URL (it has no host), and
  for a body with that \<open>repoUrl\<close> the handler creates the temporary directory and runs
  the clone; the answer is the 500 of the failed clone, not 400. And two requests whose
  body has no \<open>repoUrl\<close> are answered with 500, without effects: the body \<open>null\<close>,
  whose destructuring throws, and any body when the credential is not configured.
\<close>

theorem invalid_input_not_rejected:
  "\<not> urlShape ''https://''
   \<and> requestJson envBareScheme = Inr (JObj [(''repoUrl'', JStr ''https://'')])
   \<and> POST envBareScheme =
       (\<lparr>status = 500, payload = ErrorBody ''fatal: unable to access''\<rparr>,
        [Mkdtemp, Created ''/tmp/gemini-readme-Ab12Cd'',
         Clone ''https://'' ''/tmp/gemini-readme-Ab12Cd'', Rm ''/tmp/gemini-readme-Ab12Cd''])
   \<and> requestJson envNullBody = Inr JNull
   \<and> POST envNullBody =
       (\<lparr>status = 500, payload = ErrorBody ''Cannot destructure property repoUrl of null''\<rparr>, [])
   \<and> requestJson envNoKeyEmptyBody = Inr (JObj [])
   \<and> POST envNoKeyEmptyBody =
       (\<lparr>status = 500, payload = ErrorBody ''API Key not configured.''\<rparr>, [])"
  by (simp add: POST_envBareScheme POST_envNullBody)
     (simp add: urlShape_def hostShape_def startsWith_def envBareScheme_def envNullBody_def
        envNoKeyEmptyBody_def POST_def genAI_def baseEnv_def)

text \<open>
  C10, as the handler has it. With the credential configured, for every POST request
  whose body parses as a JSON value other than \<open>null\<close>, the validation accepts exactly
  the strings that start with \<open>http://\<close> or \<open>https://\<close> and checks nothing else; for
  an accepted string the handler asks for the temporary directory and, when it gets one,
  runs the clone with that string; every other value is answered with status 400 and
  no effect.
\<close>

theorem repoUrl_validation_is_prefix_test:
  assumes "genAI e \<noteq> None" and "requestJson e = Inr b" and "getRepoUrl e b = Inr v"
  shows "(acceptedRepoUrl v = Some s \<longleftrightarrow>
            v = Some (JStr s) \<and> (startsWith s ''http://'' \<or> startsWith s ''https://''))
       \<and> (acceptedRepoUrl v = Some s \<longrightarrow>
            Mkdtemp \<in> set (snd (POST e))
            \<and> (\<forall>rnd. mkdtemp e = Inr rnd \<longrightarrow>
                  Clone s (tmpdir e @ ''/gemini-readme-'' @ rnd) \<in> set (snd (POST e))))
       \<and> (acceptedRepoUrl v = None \<longrightarrow>
            POST e = (\<lparr>status = 400, payload = ErrorBody ''Invalid repository URL provided.''\<rparr>, []))"
proof (intro conjI impI)
  show "acceptedRepoUrl v = Some s \<longleftrightarrow>
            v = Some (JStr s) \<and> (startsWith s ''http://'' \<or> startsWith s ''https://'')"
    by (rule acceptedRepoUrl_iff)
next
  assume a: "acceptedRepoUrl v = Some s"
  show "Mkdtemp \<in> set (snd (POST e))"
    using assms a by (auto simp: POST_def tryBlock_def Let_def split: sum.splits prod.splits)
  show "\<forall>rnd. mkdtemp e = Inr rnd \<longrightarrow>
                  Clone s (tmpdir e @ ''/gemini-readme-'' @ rnd) \<in> set (snd (POST e))"
  proof (intro allI impI)
    fix rnd assume m: "mkdtemp e = Inr rnd"
    show "Clone s (tmpdir e @ ''/gemini-readme-'' @ rnd) \<in> set (snd (POST e))"
      using assms a m pipeline_effects [of e s "tmpdir e @ ''/gemini-readme-'' @ rnd"]
      by (auto simp: POST_def tryBlock_def Let_def split: prod.splits)
  qed
next
  assume "acceptedRepoUrl v = None"
  then show "POST e = (\<lparr>status = 400, payload = ErrorBody ''Invalid repository URL provided.''\<rparr>, [])"
    using assms by (simp add: POST_def tryBlock_def finallyBlock_def)
qed

theorem repoUrl_validation_is_prefix_test_witness:
  "(acceptedRepoUrl (Some (JStr ''https://'')) = Some ''https://''
      \<and> Mkdtemp \<in> set (snd (POST envBareScheme))
      \<and> Clone ''https://'' ''/tmp/gemini-readme-Ab12Cd'' \<in> set (snd (POST envBareScheme)))
   \<and> (acceptedRepoUrl (Some (JStr ''ftp://example.com/r'')) = None
      \<and> POST envFtp = (\<lparr>status = 400, payload = ErrorBody ''Invalid repository URL provided.''\<rparr>, []))"
proof -
  have g1: "genAI envBareScheme \<noteq> None"
    by (simp add: genAI_def envBareScheme_def baseEnv_def)
  have b1: "requestJson envBareScheme = Inr (JObj [(''repoUrl'', JStr ''https://'')])"
    by (simp add: envBareScheme_def)
  have v1: "getRepoUrl envBareScheme (JObj [(''repoUrl'', JStr ''https://'')]) = Inr (Some (JStr ''https://''))"
    by (simp add: getRepoUrl_def)
  have a1: "acceptedRepoUrl (Some (JStr ''https://'')) = Some ''https://''"
    by (simp add: acceptedRepoUrl_def startsWith_def)
  have m1: "mkdtemp envBareScheme = Inr ''Ab12Cd''" and t1: "tmpdir envBareScheme = ''/tmp''"
    by (simp_all add: envBareScheme_def baseEnv_def)
  have g2: "genAI envFtp \<noteq> None"
    by (simp add: genAI_def envFtp_def baseEnv_def)
  have b2: "requestJson envFtp = Inr (JObj [(''repoUrl'', JStr ''ftp://example.com/r'')])"
    by (simp add: envFtp_def)
  have v2: "getRepoUrl envFtp (JObj [(''repoUrl'', JStr ''ftp://example.com/r'')])
             = Inr (Some (JStr ''ftp://example.com/r''))"
    by (simp add: getRepoUrl_def)
  have a2: "acceptedRepoUrl (Some (JStr ''ftp://example.com/r'')) = None"
    by (simp add: acceptedRepoUrl_def startsWith_def)
  from repoUrl_validation_is_prefix_test [OF g1 b1 v1, of "''https://''"] a1 m1 t1
  have "Mkdtemp \<in> set (snd (POST envBareScheme))
      \<and> Clone ''https://'' ''/tmp/gemini-readme-Ab12Cd'' \<in> set (snd (POST envBareScheme))"
    by simp
  moreover from repoUrl_validation_is_prefix_test [OF g2 b2 v2, of "''''"] a2
  have "POST envFtp = (\<lparr>status = 400, payload = ErrorBody ''Invalid repository URL provided.''\<rparr>, [])"
    by simp
  ultimately show ?thesis using a1 a2 by simp
qed

text \<open>
  C10 as it is stated fails for three requests whose body parses as JSON: without the
  credential the answer is 500 whatever \<open>repoUrl\<close> is; for the body \<open>null\<close> the
  destructuring throws and the answer is 500, not 400; and when the temporary directory
  cannot be created, an accepted \<open>repoUrl\<close> is not cloned.
\<close>

theorem request_not_validated:
  "requestJson envNoKey = Inr (JObj [(''repoUrl'', JStr ''https://example.com/o/r.git'')])
   \<and> POST envNoKey = (\<lparr>status = 500, payload = ErrorBody ''API Key not configured.''\<rparr>, [])
   \<and> requestJson envNullBody = Inr JNull
   \<and> POST envNullBody =
       (\<lparr>status = 500, payload = ErrorBody ''Cannot destructure property repoUrl of null''\<rparr>, [])
   \<and> requestJson envNoTempDir = Inr (JObj [(''repoUrl'', JStr ''https://example.com/o/r.git'')])
   \<and> POST envNoTempDir =
       (\<lparr>status = 500, payload = ErrorBody ''EACCES: permission denied''\<rparr>, [Mkdtemp])"
  by (simp add: POST_envNullBody POST_envNoTempDir)
     (simp add: POST_def genAI_def envNoKey_def envNullBody_def envNoTempDir_def baseEnv_def)

subsection \<open>The answer of the generative API\<close>

text \<open>
  C8 does not hold of the handler. The test of step 6 reads the property \<open>text\<close>, which
  is a method and so always truthy, and sends every response that has a candidate to
  \<open>text()\<close>. For a candidate without text that was cut off, the handler answers 200
  with an empty README; for a filtered candidate, for which \<open>text()\<close> throws, it answers
  with the message of the thrown error. In neither case does the answer carry the
  finish reason of the candidate or the prompt feedback.
\<close>

theorem candidate_bypasses_failure_report:
  "POST envEmptyGeneration =
     (\<lparr>status = 200, payload = ReadmeBody ''''\<rparr>,
      [Mkdtemp, Created ''/tmp/gemini-readme-Ab12Cd'',
       Clone ''https://example.com/o/r.git'' ''/tmp/gemini-readme-Ab12Cd'',
       Generate, Rm ''/tmp/gemini-readme-Ab12Cd''])
   \<and> POST envFilteredGeneration =
     (\<lparr>status = 500, payload = ErrorBody ''blocked''\<rparr>,
      [Mkdtemp, Created ''/tmp/gemini-readme-Ab12Cd'',
       Clone ''https://example.com/o/r.git'' ''/tmp/gemini-readme-Ab12Cd'',
       Generate, Rm ''/tmp/gemini-readme-Ab12Cd''])"
  by (simp add: POST_envEmptyGeneration POST_envFilteredGeneration)

end
